theory Spec2Isabelle
  imports Complex_Main
begin

section \<open>JavaScript values\<close>

text \<open>
  The generator reads the OpenAPI document as an untyped tree (\<^verbatim>\<open>spec: unknown\<close>, the
  result of \<^verbatim>\<open>JSON.parse\<close>) and narrows it with truthiness tests, \<^verbatim>\<open>typeof\<close> and
  unchecked casts. The model therefore works on the values \<^verbatim>\<open>JSON.parse\<close> can produce.
  An object is the list of its own properties in the order \<^verbatim>\<open>Object.entries\<close> lists
  them; a decoded object has no key twice, and where a list has one twice a property read
  finds the first. A string is its list of code units, written with the type \<^typ>\<open>char\<close>; every
  character the code compares against is an ASCII character. A number is its numeric
  value; the code only ever asks whether a number is zero and converts one to text.
\<close>

datatype json =
    JNull
  | JBool bool
  | JNum rat
  | JStr string
  | JArr "json list"
  | JObj "(string \<times> json) list"

text \<open>The one exception the modelled code can raise by itself.\<close>

datatype js_error = TypeError

text \<open>\<^verbatim>\<open>ToBoolean\<close>: what \<^verbatim>\<open>!x\<close>, \<^verbatim>\<open>if (x)\<close> and \<^verbatim>\<open>Boolean(x)\<close> test.\<close>

fun truthy :: "json \<Rightarrow> bool" where
  "truthy JNull = False"
| "truthy (JBool b) = b"
| "truthy (JNum n) = (n \<noteq> 0)"
| "truthy (JStr s) = (s \<noteq> [])"
| "truthy (JArr xs) = True"
| "truthy (JObj kvs) = True"

text \<open>The result of reading a property is a value or \<^verbatim>\<open>undefined\<close> (\<^term>\<open>None\<close>).\<close>

definition truthy_opt :: "json option \<Rightarrow> bool" where
  "truthy_opt v = (case v of None \<Rightarrow> False | Some x \<Rightarrow> truthy x)"

fun typeof :: "json \<Rightarrow> string" where
  "typeof JNull = ''object''"
| "typeof (JBool b) = ''boolean''"
| "typeof (JNum n) = ''number''"
| "typeof (JStr s) = ''string''"
| "typeof (JArr xs) = ''object''"
| "typeof (JObj kvs) = ''object''"

definition typeof_opt :: "json option \<Rightarrow> string" where
  "typeof_opt v = (case v of None \<Rightarrow> ''undefined'' | Some x \<Rightarrow> typeof x)"

text \<open>
  \<^verbatim>\<open>v[name]\<close> for a value \<^verbatim>\<open>v\<close> that is not \<^verbatim>\<open>null\<close>. The names the code reads
  (\<^verbatim>\<open>paths\<close>, the five method names, \<^verbatim>\<open>operationId\<close>, \<^verbatim>\<open>requestBody\<close>,
  \<^verbatim>\<open>parameters\<close>, \<^verbatim>\<open>summary\<close>, \<^verbatim>\<open>description\<close>, \<^verbatim>\<open>in\<close>, \<^verbatim>\<open>responses\<close>,
  \<^verbatim>\<open>openapi\<close>, \<^verbatim>\<open>swagger\<close>, \<^verbatim>\<open>info\<close>, \<^verbatim>\<open>components\<close>, \<^verbatim>\<open>schemas\<close>,
  \<^verbatim>\<open>message\<close>, \<^verbatim>\<open>error\<close>, \<^verbatim>\<open>errors\<close>, \<^verbatim>\<open>detail\<close>, \<^verbatim>\<open>title\<close>, \<^verbatim>\<open>msg\<close>) are
  neither indices nor \<^verbatim>\<open>length\<close> nor inherited from a prototype, so an array, a string,
  a number or a boolean yields \<^verbatim>\<open>undefined\<close> for each of them.
\<close>

fun get_prop :: "json \<Rightarrow> string \<Rightarrow> json option" where
  "get_prop (JObj kvs) name = map_of kvs name"
| "get_prop v name = None"

text \<open>\<^verbatim>\<open>v[name]\<close> for any value: reading a property of \<^verbatim>\<open>null\<close> raises.\<close>

definition read_prop :: "json \<Rightarrow> string \<Rightarrow> js_error + json option" where
  "read_prop v name = (if v = JNull then Inl TypeError else Inr (get_prop v name))"

text \<open>\<^verbatim>\<open>v?.[name]\<close> on a value that may be \<^verbatim>\<open>undefined\<close> or \<^verbatim>\<open>null\<close>.\<close>

definition opt_prop :: "json option \<Rightarrow> string \<Rightarrow> json option" where
  "opt_prop v name = (case v of None \<Rightarrow> None | Some x \<Rightarrow> get_prop x name)"

text \<open>\<^verbatim>\<open>v ?? d\<close>\<close>

definition nullish_default :: "json option \<Rightarrow> json \<Rightarrow> json" where
  "nullish_default v d = (case v of None \<Rightarrow> d | Some JNull \<Rightarrow> d | Some x \<Rightarrow> x)"

text \<open>Decimal digits of an index or a length.\<close>

fun decimal :: "nat \<Rightarrow> string" where
  "decimal n =
     (if n < 10 then [char_of (48 + n)]
      else decimal (n div 10) @ [char_of (48 + n mod 10)])"

declare decimal.simps [simp del]

text \<open>
  \<^verbatim>\<open>Object.entries(v)\<close> for a value that is not \<^verbatim>\<open>null\<close>: the own properties of an
  object, the indexed elements of an array, the indexed code units of a string, nothing
  for a number or a boolean. (The code calls it on truthy values only.)
\<close>

fun object_entries :: "json \<Rightarrow> (string \<times> json) list" where
  "object_entries (JObj kvs) = kvs"
| "object_entries (JArr xs) = map (\<lambda>(i, x). (decimal i, x)) (enumerate 0 xs)"
| "object_entries (JStr s) = map (\<lambda>(i, c). (decimal i, JStr [c])) (enumerate 0 s)"
| "object_entries v = []"

text \<open>\<^verbatim>\<open>Object.values(v)[0]\<close>\<close>

definition first_value :: "json \<Rightarrow> json option" where
  "first_value v = (case object_entries v of [] \<Rightarrow> None | (k, x) # _ \<Rightarrow> Some x)"

text \<open>
  \<^verbatim>\<open>a === b\<close> on two values of the decoded tree. Primitives are compared by value; two
  arrays or objects are equal only if they are the same allocation, and the values the
  code compares (two properties of one operation, or values of two separately decoded
  documents) never are.
\<close>

fun strict_eq :: "json \<Rightarrow> json \<Rightarrow> bool" where
  "strict_eq (JArr xs) b = False"
| "strict_eq (JObj kvs) b = False"
| "strict_eq a b = (a = b)"

text \<open>
  \<^verbatim>\<open>String(v)\<close> and \<^verbatim>\<open>`${v}`\<close>. The text of a number is left to the parameter
  \<open>num\<close> (\<^verbatim>\<open>Number.prototype.toString\<close>). An array is joined with commas, a
  \<^verbatim>\<open>null\<close> element giving the empty text. An object converts through
  \<^verbatim>\<open>Object.prototype.toString\<close>, unless it has an own property \<^verbatim>\<open>toString\<close>: a decoded
  value is never callable, the inherited \<^verbatim>\<open>valueOf\<close> (or an own one) yields no
  primitive, and the conversion raises.
\<close>

fun to_string :: "(rat \<Rightarrow> string) \<Rightarrow> json \<Rightarrow> js_error + string"
  and join_elements :: "(rat \<Rightarrow> string) \<Rightarrow> json list \<Rightarrow> js_error + string"
where
  "to_string num JNull = Inr ''null''"
| "to_string num (JBool b) = Inr (if b then ''true'' else ''false'')"
| "to_string num (JNum n) = Inr (num n)"
| "to_string num (JStr s) = Inr s"
| "to_string num (JArr xs) = join_elements num xs"
| "to_string num (JObj kvs) =
     (if ''toString'' \<in> fst ` set kvs then Inl TypeError else Inr ''[object Object]'')"
| "join_elements num [] = Inr []"
| "join_elements num (x # xs) =
     (case (if x = JNull then Inr [] else to_string num x) of
        Inl e \<Rightarrow> Inl e
      | Inr s \<Rightarrow>
          if xs = [] then Inr s
          else (case join_elements num xs of
                  Inl e \<Rightarrow> Inl e
                | Inr r \<Rightarrow> Inr (s @ '','' @ r)))"

section \<open>The generator: \<^verbatim>\<open>src/lib/generator.ts\<close>\<close>

subsection \<open>Strings\<close>

text \<open>
  \<^verbatim>\<open>toUpperCase\<close> and \<^verbatim>\<open>toLowerCase\<close> on the ASCII letters. The code applies them to
  HTTP method names and to a letter matched by \<^verbatim>\<open>[a-z]\<close>; code units outside ASCII are
  left as they are here.
\<close>

definition is_lower :: "char \<Rightarrow> bool" where
  "is_lower c \<longleftrightarrow> 97 \<le> (of_char c :: nat) \<and> (of_char c :: nat) \<le> 122"

definition is_upper :: "char \<Rightarrow> bool" where
  "is_upper c \<longleftrightarrow> 65 \<le> (of_char c :: nat) \<and> (of_char c :: nat) \<le> 90"

definition toUpperCase :: "string \<Rightarrow> string" where
  "toUpperCase s = map (\<lambda>c. if is_lower c then char_of ((of_char c :: nat) - 32) else c) s"

definition toLowerCase :: "string \<Rightarrow> string" where
  "toLowerCase s = map (\<lambda>c. if is_upper c then char_of ((of_char c :: nat) + 32) else c) s"

text \<open>\<^verbatim>\<open>xs.join(sep)\<close> on an array of strings.\<close>

fun join :: "string \<Rightarrow> string list \<Rightarrow> string" where
  "join sep [] = []"
| "join sep [x] = x"
| "join sep (x # y # ys) = x @ sep @ join sep (y # ys)"

text \<open>
  \<^verbatim>\<open>[...pathTemplate.matchAll(/\{([^}]+)\}/g)].map((match) => match[1])\<close>.
  The matcher tries each position from left to right. At an opening brace the greedy
  class \<^verbatim>\<open>[^}]+\<close> takes every code unit up to the next closing brace; the attempt
  succeeds if it took at least one and a closing brace follows, and the search resumes
  behind that brace. Otherwise the search resumes at the next position.
\<close>

function extractPathParams :: "string \<Rightarrow> string list" where
  "extractPathParams [] = []"
| "extractPathParams (c # cs) =
     (if c = CHR ''{'' then
        (let name = takeWhile (\<lambda>x. x \<noteq> CHR ''}'') cs;
             rest = dropWhile (\<lambda>x. x \<noteq> CHR ''}'') cs
         in if name \<noteq> [] \<and> rest \<noteq> [] then name # extractPathParams (tl rest)
            else extractPathParams cs)
      else extractPathParams cs)"
  by pat_completeness auto
termination
proof (relation "measure length", goal_cases)
  case 1
  then show ?case by simp
next
  case (2 c cs name rest)
  have "length (dropWhile (\<lambda>x. x \<noteq> CHR ''}'') cs) \<le> length cs"
    by (rule length_dropWhile_le)
  with 2 show ?case by (cases rest) auto
next
  case (3 c cs name rest)
  then show ?case by simp
next
  case (4 c cs)
  then show ?case by simp
qed

text \<open>
  \<^verbatim>\<open>str.replace(/[-_]([a-z])/g, (_, letter) => letter.toUpperCase())\<close>: matches are
  found from left to right and do not overlap.
\<close>

definition is_sep :: "char \<Rightarrow> bool" where
  "is_sep c \<longleftrightarrow> c = CHR ''-'' \<or> c = CHR ''_''"

fun toCamelCase :: "string \<Rightarrow> string" where
  "toCamelCase (c # d # cs) =
     (if is_sep c \<and> is_lower d then toUpperCase [d] @ toCamelCase cs
      else c # toCamelCase (d # cs))"
| "toCamelCase cs = cs"

definition generatePathParamsType :: "string list \<Rightarrow> string option" where
  "generatePathParamsType pathParams =
     (if length pathParams = 0 then None
      else Some (''{ '' @
        join '', '' (map (\<lambda>param. toCamelCase param @ '': string | number'') pathParams) @
        '' }''))"

subsection \<open>Operation metadata\<close>

text \<open>
  \<^verbatim>\<open>interface OperationMetadata\<close>. The fields \<^verbatim>\<open>summary\<close> and \<^verbatim>\<open>description\<close> are
  declared as strings and filled by an unchecked cast, so at run time they hold whatever
  value the document has there.
\<close>

record OperationMetadata =
  operationId :: string
  "method" :: string
  path :: string
  pathParams :: "string list"
  hasRequestBody :: bool
  hasQueryParams :: bool
  summary :: json
  description :: json

subsection \<open>Extraction\<close>

text \<open>The calls \<^verbatim>\<open>parseOperations\<close> makes on its logger, in order.\<close>

datatype log_call =
    Warn_skipping string string   \<comment> \<open>\<^verbatim>\<open>{ method, path }\<close>, "Skipping operation without operationId"\<close>
  | Debug_found string            \<comment> \<open>\<^verbatim>\<open>{ operationId }\<close>, "Found operation"\<close>

text \<open>
  \<^verbatim>\<open>parameters.some((param) => param.in === "query")\<close> on an array: the callback
  raises on a \<^verbatim>\<open>null\<close> entry, and \<^verbatim>\<open>some\<close> stops at the first entry that answers true.
\<close>

fun some_in_query :: "json list \<Rightarrow> js_error + bool" where
  "some_in_query [] = Inr False"
| "some_in_query (param # params) =
     (case read_prop param ''in'' of
        Inl e \<Rightarrow> Inl e
      | Inr v \<Rightarrow> if v = Some (JStr ''query'') then Inr True else some_in_query params)"

text \<open>
  \<^verbatim>\<open>parameters?.some(...) ?? false\<close>: \<^verbatim>\<open>undefined\<close> and \<^verbatim>\<open>null\<close> give false; an
  array is searched; any other value has no callable \<^verbatim>\<open>some\<close>, and the call raises.
\<close>

fun query_params_present :: "json option \<Rightarrow> js_error + bool" where
  "query_params_present None = Inr False"
| "query_params_present (Some JNull) = Inr False"
| "query_params_present (Some (JArr params)) = some_in_query params"
| "query_params_present (Some v) = Inl TypeError"

text \<open>The string held by a value whose \<^verbatim>\<open>typeof\<close> is \<^verbatim>\<open>"string"\<close>.\<close>

fun string_value :: "json option \<Rightarrow> string" where
  "string_value (Some (JStr s)) = s"
| "string_value v = []"

type_synonym parse_state = "OperationMetadata list \<times> log_call list"

text \<open>
  The body of the inner loop for one path item and one method. The state is the array
  \<^verbatim>\<open>operations\<close> and the logger calls made so far; an exception leaves the loop with the
  calls made before it.
\<close>

definition parse_method ::
  "string \<Rightarrow> json \<Rightarrow> string \<Rightarrow> parse_state \<Rightarrow> (js_error \<times> log_call list) + parse_state" where
  "parse_method pathTemplate pathItem method_name st =
     (case st of (operations, calls) \<Rightarrow>
        (case read_prop pathItem method_name of
           Inl e \<Rightarrow> Inl (e, calls)
         | Inr operation \<Rightarrow>
             if \<not> truthy_opt operation then Inr st
             else
               let opId = opt_prop operation ''operationId'' in
               if \<not> truthy_opt opId \<or> typeof_opt opId \<noteq> ''string'' then
                 Inr (operations, calls @ [Warn_skipping (toUpperCase method_name) pathTemplate])
               else
                 (case query_params_present (opt_prop operation ''parameters'') of
                    Inl e \<Rightarrow> Inl (e, calls)
                  | Inr has_query \<Rightarrow>
                      Inr (operations @
                            [\<lparr>operationId = string_value opId,
                              method = method_name,
                              path = pathTemplate,
                              pathParams = extractPathParams pathTemplate,
                              hasRequestBody = truthy_opt (opt_prop operation ''requestBody''),
                              hasQueryParams = has_query,
                              summary = nullish_default (opt_prop operation ''summary'') (JStr []),
                              description =
                                nullish_default (opt_prop operation ''description'') (JStr [])\<rparr>],
                           calls @ [Debug_found (string_value opId)]))))"

definition http_methods :: "string list" where
  "http_methods = [''get'', ''post'', ''put'', ''delete'', ''patch'']"

fun parse_methods ::
  "string \<Rightarrow> json \<Rightarrow> string list \<Rightarrow> parse_state \<Rightarrow> (js_error \<times> log_call list) + parse_state" where
  "parse_methods pathTemplate pathItem [] st = Inr st"
| "parse_methods pathTemplate pathItem (m # ms) st =
     (case parse_method pathTemplate pathItem m st of
        Inl e \<Rightarrow> Inl e
      | Inr st' \<Rightarrow> parse_methods pathTemplate pathItem ms st')"

fun parse_paths ::
  "(string \<times> json) list \<Rightarrow> parse_state \<Rightarrow> (js_error \<times> log_call list) + parse_state" where
  "parse_paths [] st = Inr st"
| "parse_paths ((pathTemplate, pathItem) # entries) st =
     (case parse_methods pathTemplate pathItem http_methods st of
        Inl e \<Rightarrow> Inl e
      | Inr st' \<Rightarrow> parse_paths entries st')"

text \<open>
  \<^verbatim>\<open>parseOperations(spec, logger)\<close>: the returned array or the exception, and the calls
  made on the logger.
\<close>

definition parseOperations :: "json \<Rightarrow> (js_error + OperationMetadata list) \<times> log_call list" where
  "parseOperations spec =
     (if typeof spec \<noteq> ''object'' \<or> spec = JNull then (Inr [], [])
      else
        (case get_prop spec ''paths'' of
           None \<Rightarrow> (Inr [], [])
         | Some paths \<Rightarrow>
             if \<not> truthy paths then (Inr [], [])
             else
               (case parse_paths (object_entries paths) ([], []) of
                  Inl (e, calls) \<Rightarrow> (Inl e, calls)
                | Inr (operations, calls) \<Rightarrow> (Inr operations, calls))))"

subsection \<open>Emission\<close>

text \<open>The transport call of \<^verbatim>\<open>generateOperationFunction\<close> (the variable \<^verbatim>\<open>apiCall\<close>).\<close>

definition apiCall :: "OperationMetadata \<Rightarrow> string" where
  \<open>apiCall operation =
     (let httpMethod = toLowerCase (method operation);
          pathTemplate = path operation;
          call = ''apiClient.'' @ httpMethod @ ''("'' @ pathTemplate @ ''", ''
      in
        if hasRequestBody operation then
          (if length (pathParams operation) > 0 then call @ ''data, pathParams, config)''
           else call @ ''data, config)'')
        else if httpMethod = ''patch'' then
          (if length (pathParams operation) > 0 then call @ ''undefined, pathParams, config)''
           else call @ ''undefined, config)'')
        else if length (pathParams operation) > 0 then call @ ''pathParams, config)''
        else call @ ''config)'')\<close>

text \<open>The parameter list of the generated function (the array \<^verbatim>\<open>params\<close>).\<close>

definition function_params :: "OperationMetadata \<Rightarrow> string list" where
  \<open>function_params operation =
     (let httpMethod = toLowerCase (method operation);
          pathTemplate = path operation
      in
        (if length (pathParams operation) > 0 then
           (case generatePathParamsType (pathParams operation) of
              None \<Rightarrow> [''pathParams: null'']
            | Some pathParamsType \<Rightarrow> [''pathParams: '' @ pathParamsType])
         else []) @
        (if hasRequestBody operation
         then [''data: RequestBody<"'' @ pathTemplate @ ''", "'' @ httpMethod @ ''">'']
         else []) @
        [''config?: RequestConfig<"'' @ pathTemplate @ ''", "'' @ httpMethod @ ''">''])\<close>

text \<open>
  The documentation comment (the array \<^verbatim>\<open>jsdoc\<close>). Interpolating \<^verbatim>\<open>summary\<close> or
  \<^verbatim>\<open>description\<close> converts the value to text, which can raise.
\<close>

definition jsdoc_lines :: "(rat \<Rightarrow> string) \<Rightarrow> OperationMetadata \<Rightarrow> js_error + string list" where
  \<open>jsdoc_lines num operation =
     (case (if truthy (summary operation)
            then map_sum id (\<lambda>s. [''   * '' @ s]) (to_string num (summary operation))
            else Inr []) of
        Inl e \<Rightarrow> Inl e
      | Inr summary_line \<Rightarrow>
          (case (if truthy (description operation) \<and>
                    \<not> strict_eq (description operation) (summary operation)
                 then map_sum id (\<lambda>s. [''   * '' @ s]) (to_string num (description operation))
                 else Inr []) of
             Inl e \<Rightarrow> Inl e
           | Inr description_line \<Rightarrow>
               Inr ([''  /**''] @ summary_line @ description_line @
                    [''   * '',
                     ''   * @operationId '' @ operationId operation,
                     ''   * @method '' @ toUpperCase (method operation),
                     ''   * @path '' @ path operation,
                     ''   */''])))\<close>

definition generateOperationFunction ::
  "(rat \<Rightarrow> string) \<Rightarrow> OperationMetadata \<Rightarrow> js_error + string" where
  \<open>generateOperationFunction num operation =
     (let httpMethod = toLowerCase (method operation);
          functionParams = join '', '' (function_params operation);
          returnType = ''Promise<Result<ResponseData<"'' @ path operation @ ''", "'' @
                       httpMethod @ ''">>>''
      in
        (case jsdoc_lines num operation of
           Inl e \<Rightarrow> Inl e
         | Inr jsdoc \<Rightarrow>
             Inr (join ''\<newline>'' jsdoc @ ''\<newline>  '' @ operationId operation @ '': ('' @
                  functionParams @ ''): '' @ returnType @ '' => '' @ apiCall operation @
                  '',\<newline>'')))\<close>

text \<open>\<^verbatim>\<open>operations.map((op) => generateOperationFunction(op))\<close>, stopping at the first exception.\<close>

fun generate_all :: "(rat \<Rightarrow> string) \<Rightarrow> OperationMetadata list \<Rightarrow> js_error + string list" where
  "generate_all num [] = Inr []"
| "generate_all num (operation # operations) =
     (case generateOperationFunction num operation of
        Inl e \<Rightarrow> Inl e
      | Inr s \<Rightarrow> map_sum id (\<lambda>r. s # r) (generate_all num operations))"

text \<open>Every line of a template followed by a line feed.\<close>

definition text_lines :: "string list \<Rightarrow> string" where
  "text_lines ls = concat (map (\<lambda>l. l @ ''\<newline>'') ls)"

text \<open>The lines of the header template above the line that carries the time stamp.\<close>

definition header_lines_before_stamp :: "string list" where
  \<open>header_lines_before_stamp =
    [''/**'',
     '' * Auto-generated API operations from OpenAPI spec.'',
     '' * '',
     '' * This file is automatically generated by chowbea-axios CLI.'',
     '' * DO NOT EDIT MANUALLY - your changes will be overwritten.'',
     '' * '']\<close>

text \<open>The lines of the header template below the line that carries the operation count, up to and including the opening of the object literal.\<close>

definition header_lines_after_count :: "string list" where
  \<open>header_lines_after_count =
    ['' */'',
     '''',
     ''/* ~ =================================== ~ */'',
     ''/* -- This file provides semantic operation-based API functions -- */'',
     ''/* -- Use apiClient.op.operationName() instead of raw paths -- */'',
     ''/* ~ =================================== ~ */'',
     '''',
     ''import type { paths } from "./api.types"'',
     ''import type { AxiosRequestConfig } from "axios"'',
     ''import type { Result } from "../api.error"'',
     '''',
     ''/* ~ =================================== ~ */'',
     ''/* -- Type Helpers -- */'',
     ''/* ~ =================================== ~ */'',
     '''',
     ''/**'',
     '' * Extracts the operation definition for a given path and method.'',
     '' */'',
     ''type Operation<'',
     ''  P extends keyof paths,'',
     ''  M extends "get" | "post" | "put" | "delete" | "patch"'',
     ''> = paths[P][M]'',
     '''',
     ''/**'',
     '' * Maps OpenAPI form-data field types to their runtime equivalents.'',
     '' * Uses field names to intelligently detect file upload fields vs regular string fields.'',
     '' * '',
     '' * File field patterns: images, files, attachments, uploads, documents, photos, videos, media'',
     '' * Regular string fields: All other string/string[] fields remain unchanged'',
     '' */'',
     ''type MapFormDataTypes<T> = T extends Record<string, unknown>'',
     ''  ? {'',
     ''      [K in keyof T]: '',
     ''        // Check if field name suggests it's a file upload field'',
     ''        K extends `${string}image${string}` | `${string}file${string}` | `${string}attachment${string}` | '',
     ''                   `${string}upload${string}` | `${string}document${string}` | `${string}photo${string}` | '',
     ''                   `${string}video${string}` | `${string}media${string}`'',
     ''          ? T[K] extends string[]'',
     ''            ? File[]  // File upload fields become File[]'',
     ''            : T[K] extends string'',
     ''              ? File | Blob  // Single file becomes File or Blob'',
     ''              : T[K]'',
     ''          : T[K];  // Non-file fields keep their original type'',
     ''    }'',
     ''  : T;'',
     '''',
     ''/**'',
     '' * Extracts the request body type for a given path and method directly from OpenAPI spec.'',
     '' * Handles both JSON (application/json) and FormData (multipart/form-data) content types.'',
     '' * For form-data, maps string/string[] types to File/File[] for file upload fields.'',
     '' * Converts Record<string, never> (from generic object schemas) to Record<string, unknown>.'',
     '' */'',
     ''type RequestBody<'',
     ''  P extends keyof paths,'',
     ''  M extends "get" | "post" | "put" | "delete" | "patch"'',
     ''> = '',
     ''  Operation<P, M> extends { requestBody: { content: { "application/json": infer T } } }'',
     ''    ? T extends Record<string, never>'',
     ''      ? Record<string, unknown>'',
     ''      : T'',
     ''    : Operation<P, M> extends { requestBody?: { content: { "application/json": infer T } } }'',
     ''    ? T extends Record<string, never>'',
     ''      ? Record<string, unknown>'',
     ''      : T'',
     ''    : Operation<P, M> extends { requestBody: { content: { "multipart/form-data": infer T } } }'',
     ''    ? MapFormDataTypes<T>'',
     ''    : Operation<P, M> extends { requestBody?: { content: { "multipart/form-data": infer T } } }'',
     ''    ? MapFormDataTypes<T>'',
     ''    : never'',
     '''',
     ''/**'',
     '' * Extracts the response data type for a given path and method from OpenAPI spec.'',
     '' * Defaults to 200 status code response.'',
     '' */'',
     ''type ResponseData<'',
     ''  P extends keyof paths,'',
     ''  M extends "get" | "post" | "put" | "delete" | "patch"'',
     ''> = Operation<P, M> extends {'',
     ''  responses: { 200: { content: { "application/json": infer T } } }'',
     ''}'',
     ''  ? T'',
     ''  : Operation<P, M> extends {'',
     ''      responses: { 201: { content: { "application/json": infer T } } }'',
     ''    }'',
     ''  ? T'',
     ''  : unknown'',
     '''',
     ''/**'',
     '' * Extracts query parameters for a given path and method from OpenAPI spec.'',
     '' */'',
     ''type QueryParams<'',
     ''  P extends keyof paths,'',
     ''  M extends "get" | "post" | "put" | "delete" | "patch"'',
     ''> = Operation<P, M> extends { parameters: { query?: infer Q } }'',
     ''  ? Q extends Record<string, unknown>'',
     ''    ? Q'',
     ''    : never'',
     ''  : never'',
     '''',
     ''/**'',
     '' * Request config with typed query parameters extracted from OpenAPI spec.'',
     '' */'',
     ''type RequestConfig<'',
     ''  P extends keyof paths,'',
     ''  M extends "get" | "post" | "put" | "delete" | "patch"'',
     ''> = Omit<AxiosRequestConfig, "params"> & {'',
     ''  params?: QueryParams<P, M>'',
     ''}'',
     '''',
     ''/* ~ =================================== ~ */'',
     ''/* -- Generated Operations -- */'',
     ''/* ~ =================================== ~ */'',
     '''',
     ''/**'',
     '' * Collection of all API operations extracted from the OpenAPI spec.'',
     '' * Each operation is a typed function that wraps the underlying apiClient methods.'',
     '' * '',
     '' * @example'',
     '' * ```typescript'',
     '' * // Using operation-based API'',
     '' * await apiClient.op.getUserById({ id: "123" })'',
     '' * '',
     '' * // With query parameters'',
     '' * await apiClient.op.listUsers({ params: { limit: 10, offset: 0 } })'',
     '' * '',
     '' * // With request body'',
     '' * await apiClient.op.createUser({ name: "John", email: "john@example.com" })'',
     '' * ```'',
     '' */'',
     ''export const createOperations = (apiClient: any) => ({'']\<close>

text \<open>The lines of the footer template.\<close>

definition footer_lines :: "string list" where
  \<open>footer_lines =
    [''}) as const'',
     '''',
     ''/**'',
     '' * Type representing all available API operations.'',
     '' * This type is inferred from the createOperations return value for proper TypeScript support.'',
     '' */'',
     ''export type ApiOperations = ReturnType<typeof createOperations>'']\<close>

text \<open>
  \<^verbatim>\<open>generateOperationsFileContent(operations)\<close>. The clock is read once, by
  \<^verbatim>\<open>new Date().toISOString()\<close> inside the header template; its text is the parameter
  \<open>now\<close>.
\<close>

definition operations_header :: "string \<Rightarrow> OperationMetadata list \<Rightarrow> string" where
  "operations_header now operations =
     text_lines header_lines_before_stamp @
     '' * Last generated: '' @ now @ ''\<newline>'' @
     '' * Total operations: '' @ decimal (length operations) @ ''\<newline>'' @
     text_lines header_lines_after_count"

definition generateOperationsFileContent ::
  "(rat \<Rightarrow> string) \<Rightarrow> string \<Rightarrow> OperationMetadata list \<Rightarrow> js_error + string" where
  "generateOperationsFileContent num now operations =
     (case generate_all num operations of
        Inl e \<Rightarrow> Inl e
      | Inr operationFunctions \<Rightarrow>
          Inr (operations_header now operations @
               join ''\<newline>'' operationFunctions @
               text_lines footer_lines))"

text \<open>
  Extraction followed by emission, as \<^verbatim>\<open>generate\<close> chains them:
  \<^verbatim>\<open>generateOperationsFileContent(parseOperations(spec, logger))\<close>.
\<close>

definition render_spec :: "(rat \<Rightarrow> string) \<Rightarrow> string \<Rightarrow> json \<Rightarrow> js_error + string" where
  "render_spec num now spec =
     (case fst (parseOperations spec) of
        Inl e \<Rightarrow> Inl e
      | Inr operations \<Rightarrow> generateOperationsFileContent num now operations)"

section \<open>The validator: \<^verbatim>\<open>src/commands/validate.ts\<close>\<close>

datatype severity = Severity_error | Severity_warning

text \<open>
  \<^verbatim>\<open>interface ValidationIssue\<close>. The fields \<^verbatim>\<open>path\<close> and \<^verbatim>\<open>message\<close> carry a prefix
  here, since other records of this theory have fields of the same names.
\<close>

record ValidationIssue =
  severity :: severity
  issue_path :: string
  issue_message :: string

text \<open>The checks of \<^verbatim>\<open>validateSpec\<close> on one operation slot of a path item that is an object.\<close>

definition validate_method :: "string \<Rightarrow> json \<Rightarrow> string \<Rightarrow> ValidationIssue list" where
  "validate_method pathKey pathObj method_name =
     (let operation = get_prop pathObj method_name in
        if \<not> truthy_opt operation then []
        else
          (if \<not> truthy_opt (opt_prop operation ''operationId'') then
             [\<lparr>severity = Severity_warning,
               issue_path = ''/paths'' @ pathKey @ ''/'' @ method_name,
               issue_message =
                 ''Missing operationId - operation will be skipped during generation''\<rparr>]
           else []) @
          (if \<not> truthy_opt (opt_prop operation ''responses'') then
             [\<lparr>severity = Severity_warning,
               issue_path = ''/paths'' @ pathKey @ ''/'' @ method_name,
               issue_message = ''Missing responses definition''\<rparr>]
           else []))"

text \<open>The body of the loop over \<^verbatim>\<open>Object.entries(paths)\<close>.\<close>

definition validate_path_item :: "string \<Rightarrow> json \<Rightarrow> ValidationIssue list" where
  "validate_path_item pathKey pathItem =
     (if typeof pathItem \<noteq> ''object'' \<or> pathItem = JNull then
        [\<lparr>severity = Severity_error,
          issue_path = ''/paths'' @ pathKey,
          issue_message = ''Path item must be an object''\<rparr>]
      else concat (map (validate_method pathKey pathItem) http_methods))"

definition validateSpec :: "json \<Rightarrow> ValidationIssue list" where
  "validateSpec spec =
     (if typeof spec \<noteq> ''object'' \<or> spec = JNull then
        [\<lparr>severity = Severity_error, issue_path = ''/'',
          issue_message = ''Spec must be a valid JSON object''\<rparr>]
      else
        (if \<not> (truthy_opt (get_prop spec ''openapi'') \<or> truthy_opt (get_prop spec ''swagger''))
         then [\<lparr>severity = Severity_error, issue_path = ''/'',
                 issue_message = ''Missing 'openapi' or 'swagger' version field''\<rparr>]
         else []) @
        (if \<not> truthy_opt (get_prop spec ''info'')
         then [\<lparr>severity = Severity_error, issue_path = ''/info'',
                 issue_message = ''Missing required 'info' object''\<rparr>]
         else []) @
        (case get_prop spec ''paths'' of
           None \<Rightarrow>
             [\<lparr>severity = Severity_warning, issue_path = ''/paths'',
               issue_message = ''No paths defined in spec''\<rparr>]
         | Some paths \<Rightarrow>
             if truthy paths then
               concat (map (\<lambda>(pathKey, pathItem). validate_path_item pathKey pathItem)
                         (object_entries paths))
             else
               [\<lparr>severity = Severity_warning, issue_path = ''/paths'',
                 issue_message = ''No paths defined in spec''\<rparr>]) @
        (let components = get_prop spec ''components'' in
           if truthy_opt components \<and> \<not> truthy_opt (opt_prop components ''schemas'')
           then [\<lparr>severity = Severity_warning, issue_path = ''/components'',
                   issue_message = ''No schemas defined in components''\<rparr>]
           else []))"

section \<open>The diff command: \<^verbatim>\<open>src/commands/diff.ts\<close>\<close>

text \<open>
  \<^verbatim>\<open>interface OperationInfo\<close>, its fields prefixed with \<open>info_\<close> since
  \<^typ>\<open>OperationMetadata\<close> has fields of the same names. The interface declares
  \<^verbatim>\<open>operationId\<close> and \<^verbatim>\<open>summary\<close> as strings, and \<^verbatim>\<open>extractOperations\<close> fills them by
  unchecked casts, so at run time the two fields hold whatever value the document has
  there.
\<close>

record OperationInfo =
  info_operationId :: json
  info_method :: string
  info_path :: string
  info_hasRequestBody :: bool
  info_summary :: json

text \<open>
  A \<^verbatim>\<open>Map\<close> is the list of its entries in insertion order. \<^verbatim>\<open>Map.prototype.set\<close>
  replaces the value of a key that is present and appends a new entry otherwise. Keys
  are compared by \<^verbatim>\<open>SameValueZero\<close>, which on the values of a decoded document is
  \<^const>\<open>strict_eq\<close>.
\<close>

fun map_set :: "json \<Rightarrow> 'v \<Rightarrow> (json \<times> 'v) list \<Rightarrow> (json \<times> 'v) list" where
  "map_set k v [] = [(k, v)]"
| "map_set k v ((k', v') # m) =
     (if strict_eq k' k then (k', v) # m else (k', v') # map_set k v m)"

text \<open>\<^verbatim>\<open>Map.prototype.get\<close> and \<^verbatim>\<open>Map.prototype.has\<close>, with the same comparison of keys.\<close>

fun map_get :: "json \<Rightarrow> (json \<times> 'v) list \<Rightarrow> 'v option" where
  "map_get k [] = None"
| "map_get k ((k', v') # m) = (if strict_eq k' k then Some v' else map_get k m)"

fun map_has :: "json \<Rightarrow> (json \<times> 'v) list \<Rightarrow> bool" where
  "map_has k [] \<longleftrightarrow> False"
| "map_has k ((k', v') # m) \<longleftrightarrow> strict_eq k' k \<or> map_has k m"

type_synonym operation_map = "(json \<times> OperationInfo) list"

text \<open>The body of the inner loop of \<^verbatim>\<open>extractOperations\<close>.\<close>

definition extract_method ::
  "string \<Rightarrow> json \<Rightarrow> string \<Rightarrow> operation_map \<Rightarrow> js_error + operation_map" where
  "extract_method pathTemplate pathItem method_name operations =
     (case read_prop pathItem method_name of
        Inl e \<Rightarrow> Inl e
      | Inr operation \<Rightarrow>
          if \<not> truthy_opt operation then Inr operations
          else
            (case opt_prop operation ''operationId'' of
               None \<Rightarrow> Inr operations
             | Some opId \<Rightarrow>
                 if \<not> truthy opId then Inr operations
                 else
                   Inr (map_set opId
                          \<lparr>info_operationId = opId,
                            info_method = method_name,
                            info_path = pathTemplate,
                            info_hasRequestBody =
                              truthy_opt (opt_prop operation ''requestBody''),
                            info_summary =
                              nullish_default (opt_prop operation ''summary'') (JStr [])\<rparr>
                          operations)))"

fun extract_methods ::
  "string \<Rightarrow> json \<Rightarrow> string list \<Rightarrow> operation_map \<Rightarrow> js_error + operation_map" where
  "extract_methods pathTemplate pathItem [] operations = Inr operations"
| "extract_methods pathTemplate pathItem (m # ms) operations =
     (case extract_method pathTemplate pathItem m operations of
        Inl e \<Rightarrow> Inl e
      | Inr operations' \<Rightarrow> extract_methods pathTemplate pathItem ms operations')"

fun extract_paths :: "(string \<times> json) list \<Rightarrow> operation_map \<Rightarrow> js_error + operation_map" where
  "extract_paths [] operations = Inr operations"
| "extract_paths ((pathTemplate, pathItem) # entries) operations =
     (case extract_methods pathTemplate pathItem http_methods operations of
        Inl e \<Rightarrow> Inl e
      | Inr operations' \<Rightarrow> extract_paths entries operations')"

definition extractOperations :: "json \<Rightarrow> js_error + operation_map" where
  "extractOperations spec =
     (if typeof spec \<noteq> ''object'' \<or> spec = JNull then Inr []
      else
        (case get_prop spec ''paths'' of
           None \<Rightarrow> Inr []
         | Some paths \<Rightarrow>
             if \<not> truthy paths then Inr []
             else extract_paths (object_entries paths) []))"

text \<open>
  \<^verbatim>\<open>hasChanges\<close>. The operator \<^verbatim>\<open>!==\<close> is inequality of values on strings and
  booleans; on the two summaries, which come from two separately decoded documents, it is
  the negation of \<^const>\<open>strict_eq\<close>.
\<close>

definition hasChanges :: "OperationInfo \<Rightarrow> OperationInfo \<Rightarrow> bool" where
  "hasChanges a b \<longleftrightarrow>
     info_method a \<noteq> info_method b \<or>
     info_path a \<noteq> info_path b \<or>
     info_hasRequestBody a \<noteq> info_hasRequestBody b \<or>
     \<not> strict_eq (info_summary a) (info_summary b)"

text \<open>
  The difference computation of \<^verbatim>\<open>run\<close>, on the maps that \<^verbatim>\<open>extractOperations\<close>
  returns for the current and for the new document. An entry of a map is an object, hence
  truthy: \<^verbatim>\<open>!currentOp\<close> holds exactly when \<^verbatim>\<open>get\<close> finds no entry.
\<close>

record Differences =
  added :: "OperationInfo list"
  removed :: "OperationInfo list"
  modified :: "(OperationInfo \<times> OperationInfo) list"

text \<open>The first loop: over the entries of \<^verbatim>\<open>newOperations\<close>.\<close>

fun find_added_modified ::
  "operation_map \<Rightarrow> operation_map \<Rightarrow>
   OperationInfo list \<times> (OperationInfo \<times> OperationInfo) list \<Rightarrow>
   OperationInfo list \<times> (OperationInfo \<times> OperationInfo) list" where
  "find_added_modified currentOperations [] acc = acc"
| "find_added_modified currentOperations ((id', newOp) # entries) (added_ops, modified_ops) =
     (case map_get id' currentOperations of
        None \<Rightarrow> find_added_modified currentOperations entries (added_ops @ [newOp], modified_ops)
      | Some currentOp \<Rightarrow>
          if hasChanges currentOp newOp
          then find_added_modified currentOperations entries
                 (added_ops, modified_ops @ [(currentOp, newOp)])
          else find_added_modified currentOperations entries (added_ops, modified_ops))"

text \<open>The second loop: over the entries of \<^verbatim>\<open>currentOperations\<close>.\<close>

fun find_removed ::
  "operation_map \<Rightarrow> operation_map \<Rightarrow> OperationInfo list \<Rightarrow> OperationInfo list" where
  "find_removed newOperations [] removed_ops = removed_ops"
| "find_removed newOperations ((id', currentOp) # entries) removed_ops =
     (if \<not> map_has id' newOperations
      then find_removed newOperations entries (removed_ops @ [currentOp])
      else find_removed newOperations entries removed_ops)"

definition compute_differences :: "operation_map \<Rightarrow> operation_map \<Rightarrow> Differences" where
  "compute_differences currentOperations newOperations =
     (case find_added_modified currentOperations newOperations ([], []) of
        (added_ops, modified_ops) \<Rightarrow>
          \<lparr>added = added_ops,
            removed = find_removed newOperations currentOperations [],
            modified = modified_ops\<rparr>)"

section \<open>The generated error module: the template of \<^verbatim>\<open>generateErrorFileContent\<close>\<close>

text \<open>
  The functions of \<^verbatim>\<open>api.error.ts\<close>, as the template in \<^verbatim>\<open>generator.ts\<close> writes them.
\<close>

definition unexpected_error :: string where
  "unexpected_error = ''An unexpected error occurred''"

text \<open>\<^verbatim>\<open>xs[0]\<close> on an array.\<close>

fun first_element :: "json list \<Rightarrow> json option" where
  "first_element [] = None"
| "first_element (x # xs) = Some x"

text \<open>\<^verbatim>\<open>Array.isArray(v)\<close> and the elements of an array.\<close>

fun is_array :: "json option \<Rightarrow> bool" where
  "is_array (Some (JArr xs)) = True"
| "is_array v = False"

fun elements :: "json option \<Rightarrow> json list" where
  "elements (Some (JArr xs)) = xs"
| "elements v = []"

text \<open>
  \<^verbatim>\<open>normalizeErrorMessage\<close> is a sequence of tests, each of which may return. A step of
  the model gives the value of the \<^verbatim>\<open>return\<close> it reaches, or \<^term>\<open>None\<close> when control
  falls through to the next test.
\<close>

text \<open>\<^verbatim>\<open>if (typeof e.name === "string") return e.name\<close>\<close>

definition string_prop :: "json \<Rightarrow> string \<Rightarrow> json option" where
  "string_prop e name =
     (if typeof_opt (get_prop e name) = ''string'' then get_prop e name else None)"

text \<open>\<^verbatim>\<open>if (e.error) { ... }\<close>\<close>

definition error_step :: "json \<Rightarrow> json option" where
  "error_step e =
     (case get_prop e ''error'' of
        None \<Rightarrow> None
      | Some err \<Rightarrow>
          if \<not> truthy err then None
          else if typeof err = ''string'' then Some err
          else string_prop err ''message'')"

text \<open>
  \<^verbatim>\<open>if (e.errors) { ... }\<close>; the conversion \<^verbatim>\<open>String(firstField[0])\<close> can raise.
\<close>

definition errors_step :: "(rat \<Rightarrow> string) \<Rightarrow> json \<Rightarrow> js_error + json option" where
  "errors_step num e =
     (case get_prop e ''errors'' of
        None \<Rightarrow> Inr None
      | Some errs \<Rightarrow>
          if \<not> truthy errs then Inr None
          else if is_array (Some errs) then
            (let first = first_element (elements (Some errs)) in
               if typeof_opt first = ''string'' then Inr first
               else if typeof_opt (opt_prop first ''message'') = ''string''
               then Inr (opt_prop first ''message'')
               else Inr None)
          else if typeof errs = ''object'' then
            (let firstField = first_value errs in
               if is_array firstField \<and> length (elements firstField) > 0 then
                 (case first_element (elements firstField) of
                    None \<Rightarrow> Inr None
                  | Some x \<Rightarrow> map_sum id (\<lambda>s. Some (JStr s)) (to_string num x))
               else Inr None)
          else Inr None)"

text \<open>
  \<^verbatim>\<open>if (typeof e.detail === "string") return e.detail;\<close>
  \<^verbatim>\<open>if (Array.isArray(e.detail) && e.detail[0]?.msg) return e.detail[0].msg;\<close>
\<close>

definition detail_step :: "json \<Rightarrow> json option" where
  "detail_step e =
     (if typeof_opt (get_prop e ''detail'') = ''string'' then get_prop e ''detail''
      else
        (let msg = opt_prop (first_element (elements (get_prop e ''detail''))) ''msg'' in
           if is_array (get_prop e ''detail'') \<and> truthy_opt msg then msg else None))"

text \<open>
  \<^verbatim>\<open>normalizeErrorMessage(error)\<close>, on a decoded value or \<^verbatim>\<open>undefined\<close>. The function is
  declared to return a string; the model returns the value the code returns.
\<close>

definition normalizeErrorMessage :: "(rat \<Rightarrow> string) \<Rightarrow> json option \<Rightarrow> js_error + json" where
  "normalizeErrorMessage num error =
     (case error of
        None \<Rightarrow> Inr (JStr unexpected_error)
      | Some e \<Rightarrow>
          if \<not> truthy e \<or> typeof e \<noteq> ''object'' then Inr (JStr unexpected_error)
          else
            (case string_prop e ''message'' of
               Some v \<Rightarrow> Inr v
             | None \<Rightarrow>
            (case error_step e of
               Some v \<Rightarrow> Inr v
             | None \<Rightarrow>
            (case errors_step num e of
               Inl ex \<Rightarrow> Inl ex
             | Inr (Some v) \<Rightarrow> Inr v
             | Inr None \<Rightarrow>
            (case detail_step e of
               Some v \<Rightarrow> Inr v
             | None \<Rightarrow>
            (case string_prop e ''title'' of
               Some v \<Rightarrow> Inr v
             | None \<Rightarrow> Inr (JStr unexpected_error)))))))"

subsection \<open>Request context\<close>

text \<open>
  The parts of axios's \<^verbatim>\<open>AxiosRequestConfig\<close>, \<^verbatim>\<open>AxiosResponse\<close> and \<^verbatim>\<open>AxiosError\<close>
  that the module reads, with the types axios declares for them; an optional field is an
  \<^typ>\<open>'a option\<close>.
\<close>

record AxiosRequestConfig =
  config_method :: "string option"
  config_url :: "string option"
  config_baseURL :: "string option"
  config_params :: "json option"
  config_data :: "json option"

record AxiosResponse =
  response_data :: json
  response_status :: int

record AxiosError =
  error_config :: "AxiosRequestConfig option"
  error_code :: "string option"
  error_message :: string
  error_response :: "AxiosResponse option"

text \<open>
  What a \<^verbatim>\<open>catch\<close> clause can receive: an \<^verbatim>\<open>AxiosError\<close>, another \<^verbatim>\<open>Error\<close> with
  its message, or any other value.
\<close>

datatype thrown =
    Thrown_axios AxiosError
  | Thrown_error string
  | Thrown_value "json option"

text \<open>\<^verbatim>\<open>interface RequestContext\<close>; \<^verbatim>\<open>method\<close> and \<^verbatim>\<open>data\<close> are prefixed.\<close>

record RequestContext =
  request_method :: string
  url :: string
  baseURL :: "string option"
  params :: "json option"
  request_data :: "json option"

definition SENSITIVE_FIELDS :: "string list" where
  "SENSITIVE_FIELDS =
     [''password'', ''token'', ''secret'', ''authorization'', ''apikey'', ''api_key'',
      ''access_token'', ''refresh_token'']"

text \<open>\<^verbatim>\<open>key.includes(s)\<close>\<close>

fun string_includes :: "string \<Rightarrow> string \<Rightarrow> bool" where
  "string_includes [] s \<longleftrightarrow> s = []"
| "string_includes (c # cs) s \<longleftrightarrow> take (length s) (c # cs) = s \<or> string_includes cs s"

text \<open>
  \<^verbatim>\<open>redactSensitive(data)\<close>: the spread copies the own properties of an object (the
  indexed elements of an array) into a new object, in order.
\<close>

definition redactSensitive :: "json option \<Rightarrow> json option" where
  "redactSensitive data_value =
     (case data_value of
        None \<Rightarrow> None
      | Some d \<Rightarrow>
          if \<not> truthy d \<or> typeof d \<noteq> ''object'' then Some d
          else
            Some (JObj (map (\<lambda>(key, v).
                          (key, if list_ex (\<lambda>s. string_includes (toLowerCase key) s) SENSITIVE_FIELDS
                                then JStr ''[REDACTED]'' else v))
                        (object_entries d))))"

text \<open>\<^verbatim>\<open>x || d\<close> on an optional string.\<close>

definition or_default :: "string option \<Rightarrow> string \<Rightarrow> string" where
  "or_default x d = (case x of None \<Rightarrow> d | Some s \<Rightarrow> if s = [] then d else s)"

definition extractRequestContext :: "AxiosError \<Rightarrow> RequestContext" where
  "extractRequestContext err =
     (let config = error_config err in
        \<lparr>request_method =
           or_default (map_option toUpperCase (Option.bind config config_method)) ''UNKNOWN'',
         url = or_default (Option.bind config config_url) ''unknown'',
         baseURL = Option.bind config config_baseURL,
         params = Option.bind config config_params,
         request_data = redactSensitive (Option.bind config config_data)\<rparr>)"

subsection \<open>Error creation\<close>

definition getErrorCode :: "int \<Rightarrow> string" where
  "getErrorCode status_code =
     (if status_code \<ge> 500 then ''SERVER_ERROR''
      else if status_code = 400 then ''BAD_REQUEST''
      else if status_code = 401 then ''UNAUTHORIZED''
      else if status_code = 403 then ''FORBIDDEN''
      else if status_code = 404 then ''NOT_FOUND''
      else if status_code = 409 then ''CONFLICT''
      else if status_code = 422 then ''VALIDATION_ERROR''
      else if status_code = 429 then ''RATE_LIMITED''
      else ''REQUEST_ERROR'')"

text \<open>The field \<^verbatim>\<open>details\<close> of an \<^verbatim>\<open>ApiError\<close>, by the place that fills it.\<close>

datatype error_details =
    Details_network "string option" string   \<comment> \<open>\<^verbatim>\<open>{ code: err.code, message: err.message }\<close>\<close>
  | Details_response json                     \<comment> \<open>\<^verbatim>\<open>err.response.data\<close>\<close>
  | Details_thrown thrown                     \<comment> \<open>\<^verbatim>\<open>err\<close>\<close>

text \<open>
  \<^verbatim>\<open>interface ApiError\<close>. The field \<^verbatim>\<open>message\<close> is declared as a string and holds what
  \<^verbatim>\<open>normalizeErrorMessage\<close> returned; \<^verbatim>\<open>status\<close> is a number or \<^verbatim>\<open>null\<close>
  (\<^term>\<open>None\<close>); \<^verbatim>\<open>request\<close> is a \<^verbatim>\<open>RequestContext\<close>, of which the unknown-error branch
  fills \<^verbatim>\<open>method\<close> and \<^verbatim>\<open>url\<close> only.
\<close>

record ApiError =
  message :: json
  code :: string
  status :: "int option"
  request :: RequestContext
  details :: error_details

definition createApiError :: "(rat \<Rightarrow> string) \<Rightarrow> thrown \<Rightarrow> js_error + ApiError" where
  "createApiError num err =
     (case err of
        Thrown_axios ax \<Rightarrow>
          (let req = extractRequestContext ax in
             (case error_response ax of
                None \<Rightarrow>
                  Inr \<lparr>message =
                         JStr (if error_code ax = Some ''ECONNABORTED''
                               then ''Request timed out''
                               else ''Network error - please check your connection''),
                       code = (if error_code ax = Some ''ECONNABORTED''
                               then ''TIMEOUT'' else ''NETWORK_ERROR''),
                       status = None,
                       request = req,
                       details = Details_network (error_code ax) (error_message ax)\<rparr>
              | Some response \<Rightarrow>
                  (case normalizeErrorMessage num (Some (response_data response)) of
                     Inl ex \<Rightarrow> Inl ex
                   | Inr msg \<Rightarrow>
                       Inr \<lparr>message = msg,
                            code = getErrorCode (response_status response),
                            status = Some (response_status response),
                            request = req,
                            details = Details_response (response_data response)\<rparr>)))
      | Thrown_error msg \<Rightarrow>
          Inr \<lparr>message = JStr msg,
               code = ''UNKNOWN_ERROR'',
               status = None,
               request = \<lparr>request_method = ''UNKNOWN'', url = ''unknown'', baseURL = None,
                           params = None, request_data = None\<rparr>,
               details = Details_thrown err\<rparr>
      | Thrown_value v \<Rightarrow>
          Inr \<lparr>message = JStr unexpected_error,
               code = ''UNKNOWN_ERROR'',
               status = None,
               request = \<lparr>request_method = ''UNKNOWN'', url = ''unknown'', baseURL = None,
                           params = None, request_data = None\<rparr>,
               details = Details_thrown err\<rparr>)"

subsection \<open>The safe request wrapper\<close>

text \<open>
  \<^verbatim>\<open>type Result<T>\<close>: \<^verbatim>\<open>data\<close> is a value (\<^term>\<open>JNull\<close> for \<^verbatim>\<open>null\<close>), \<^verbatim>\<open>error\<close> is
  an \<^verbatim>\<open>ApiError\<close> or \<^verbatim>\<open>null\<close> (\<^term>\<open>None\<close>).
\<close>

record Result =
  data :: json
  error :: "ApiError option"

text \<open>The state in which \<^verbatim>\<open>await promise\<close> finds the promise once it has settled.\<close>

datatype settled = Fulfilled AxiosResponse | Rejected thrown

text \<open>
  \<^verbatim>\<open>safeRequest(promise)\<close> after the promise has settled: the result it resolves to, or
  the exception it rejects with when one is raised inside the \<^verbatim>\<open>catch\<close> clause.
\<close>

definition safeRequest :: "(rat \<Rightarrow> string) \<Rightarrow> settled \<Rightarrow> js_error + Result" where
  "safeRequest num promise =
     (case promise of
        Fulfilled response \<Rightarrow> Inr \<lparr>data = response_data response, error = None\<rparr>
      | Rejected err \<Rightarrow>
          (case createApiError num err of
             Inl ex \<Rightarrow> Inl ex
           | Inr api_error \<Rightarrow> Inr \<lparr>data = JNull, error = Some api_error\<rparr>))"

text \<open>\<^verbatim>\<open>isSuccess\<close> and \<^verbatim>\<open>isError\<close>\<close>

definition isSuccess :: "Result \<Rightarrow> bool" where
  "isSuccess result \<longleftrightarrow> error result = None"

definition isError :: "Result \<Rightarrow> bool" where
  "isError result \<longleftrightarrow> error result \<noteq> None"

text \<open>
  A conversion of numbers to text for evaluating examples: the decimal digits of a
  natural number, as \<^verbatim>\<open>Number.prototype.toString\<close> gives them below \<^verbatim>\<open>1e21\<close>, and
  the empty text for any other number.
\<close>

definition small_number_text :: "rat \<Rightarrow> string" where
  "small_number_text n =
     (if of_int \<lfloor>n\<rfloor> = n \<and> 0 \<le> n \<and> n < 10 ^ 21 then decimal (nat \<lfloor>n\<rfloor>) else [])"

section \<open>Notions used to state the properties\<close>

text \<open>
  A path template written from its parts: a leading literal text, then placeholders
  \<^verbatim>\<open>{p}\<close>, each followed by a literal text.
\<close>

fun path_template :: "string \<Rightarrow> (string \<times> string) list \<Rightarrow> string" where
  "path_template lit [] = lit"
| "path_template lit ((p, lit') # segs) = lit @ ''{'' @ p @ ''}'' @ path_template lit' segs"

text \<open>No \<^verbatim>\<open>-\<close> or \<^verbatim>\<open>_\<close> of the string is immediately followed by a lowercase letter.\<close>

fun sep_pair_free :: "string \<Rightarrow> bool" where
  "sep_pair_free (c # d # cs) \<longleftrightarrow> \<not> (is_sep c \<and> is_lower d) \<and> sep_pair_free (d # cs)"
| "sep_pair_free cs \<longleftrightarrow> True"

text \<open>The text of the operations module that precedes the time stamp.\<close>

definition text_before_stamp :: string where
  "text_before_stamp = text_lines header_lines_before_stamp @ '' * Last generated: ''"

text \<open>
  A value of \<^verbatim>\<open>parameters\<close> that the query test can search: absent, \<^verbatim>\<open>null\<close>, or an
  array without a \<^verbatim>\<open>null\<close> entry.
\<close>

definition parameters_searchable :: "json option \<Rightarrow> bool" where
  "parameters_searchable v \<longleftrightarrow>
     (case v of
        None \<Rightarrow> True
      | Some JNull \<Rightarrow> True
      | Some (JArr entries) \<Rightarrow> JNull \<notin> set entries
      | Some _ \<Rightarrow> False)"

text \<open>
  A path item that is not \<^verbatim>\<open>null\<close> and whose operations under the five methods have
  searchable \<^verbatim>\<open>parameters\<close>.
\<close>

definition path_item_readable :: "json \<Rightarrow> bool" where
  "path_item_readable pathItem \<longleftrightarrow>
     pathItem \<noteq> JNull \<and>
     (\<forall>m \<in> set http_methods.
        parameters_searchable (opt_prop (get_prop pathItem m) ''parameters''))"

text \<open>The \<^verbatim>\<open>operationId\<close> of an operation is a non-empty string.\<close>

definition has_string_id :: "json option \<Rightarrow> bool" where
  "has_string_id operation \<longleftrightarrow>
     (case opt_prop operation ''operationId'' of Some (JStr s) \<Rightarrow> s \<noteq> [] | _ \<Rightarrow> False)"

text \<open>The path item has, under the method, a truthy operation with such an \<^verbatim>\<open>operationId\<close>.\<close>

definition extractable :: "json \<Rightarrow> string \<Rightarrow> bool" where
  "extractable pathItem m \<longleftrightarrow>
     truthy_opt (get_prop pathItem m) \<and> has_string_id (get_prop pathItem m)"

text \<open>
  The pairs of a path and a method that carry such an operation, in the order of the
  document and, for each path, of the fixed method list.
\<close>

definition extractable_slots :: "(string \<times> json) list \<Rightarrow> (string \<times> string) list" where
  "extractable_slots entries =
     concat (map (\<lambda>(p, pathItem). map (\<lambda>m. (p, m)) (filter (extractable pathItem) http_methods))
               entries)"

text \<open>The path and the method of a descriptor.\<close>

abbreviation slot_of :: "OperationMetadata \<Rightarrow> string \<times> string" where
  "slot_of d \<equiv> (path d, method d)"

text \<open>Every \<^verbatim>\<open>operationId\<close> of the list is a key of the map.\<close>

definition ids_covered :: "OperationMetadata list \<Rightarrow> operation_map \<Rightarrow> bool" where
  "ids_covered ops m \<longleftrightarrow> (\<forall>d \<in> set ops. JStr (operationId d) \<in> fst ` set m)"

text \<open>The four fields of an \<^verbatim>\<open>OperationInfo\<close> that are not its \<^verbatim>\<open>operationId\<close>.\<close>

definition compared_fields :: "OperationInfo \<Rightarrow> string \<times> string \<times> bool \<times> json" where
  "compared_fields v = (info_method v, info_path v, info_hasRequestBody v, info_summary v)"

text \<open>A value that is neither an array nor an object: a string, a number, a boolean or \<^verbatim>\<open>null\<close>.\<close>

fun primitive :: "json \<Rightarrow> bool" where
  "primitive (JArr xs) \<longleftrightarrow> False"
| "primitive (JObj kvs) \<longleftrightarrow> False"
| "primitive v \<longleftrightarrow> True"

text \<open>
  A map keyed by \<^verbatim>\<open>operationId\<close>, with ids and summaries that are compared as values
  (strings, as the interface declares them, or other primitives): no key occurs twice,
  and every entry is stored under its own \<^verbatim>\<open>operationId\<close>.
\<close>

definition keyed_by_operationId :: "operation_map \<Rightarrow> bool" where
  "keyed_by_operationId m \<longleftrightarrow>
     distinct (map fst m) \<and>
     (\<forall>(k, v) \<in> set m. info_operationId v = k \<and> primitive k \<and> primitive (info_summary v))"

text \<open>What \<^verbatim>\<open>Map.prototype.set\<close> keeps of a map of operations.\<close>

definition map_invariant :: "operation_map \<Rightarrow> bool" where
  "map_invariant m \<longleftrightarrow>
     distinct (filter primitive (map fst m)) \<and> (\<forall>(k, v) \<in> set m. info_operationId v = k)"

text \<open>What one entry of the new map contributes to \<^verbatim>\<open>modified\<close>.\<close>

definition changed_pair ::
  "operation_map \<Rightarrow> json \<times> OperationInfo \<Rightarrow> (OperationInfo \<times> OperationInfo) list" where
  "changed_pair cur entry =
     (case map_get (fst entry) cur of
        None \<Rightarrow> []
      | Some c \<Rightarrow> if hasChanges c (snd entry) then [(c, snd entry)] else [])"

text \<open>Two small operation maps, for evaluating the difference computation.\<close>

definition example_current :: operation_map where
  "example_current =
     [(JStr ''listPets'',
       \<lparr>info_operationId = JStr ''listPets'', info_method = ''get'', info_path = ''/pets'',
         info_hasRequestBody = False, info_summary = JStr ''List''\<rparr>),
      (JStr ''addPet'',
       \<lparr>info_operationId = JStr ''addPet'', info_method = ''post'', info_path = ''/pets'',
         info_hasRequestBody = False, info_summary = JStr ''Add''\<rparr>)]"

definition example_new :: operation_map where
  "example_new =
     [(JStr ''addPet'',
       \<lparr>info_operationId = JStr ''addPet'', info_method = ''post'', info_path = ''/pets'',
         info_hasRequestBody = True, info_summary = JStr ''Add''\<rparr>),
      (JStr ''getPet'',
       \<lparr>info_operationId = JStr ''getPet'', info_method = ''get'', info_path = ''/pets/{id}'',
         info_hasRequestBody = False, info_summary = JStr ''Get''\<rparr>)]"

text \<open>No object inside the value has an own property named \<^verbatim>\<open>toString\<close>.\<close>

fun no_own_toString :: "json \<Rightarrow> bool" where
  "no_own_toString (JArr xs) \<longleftrightarrow> (\<forall>x \<in> set xs. no_own_toString x)"
| "no_own_toString (JObj kvs) \<longleftrightarrow>
     ''toString'' \<notin> fst ` set kvs \<and> (\<forall>v \<in> snd ` set kvs. no_own_toString v)"
| "no_own_toString v \<longleftrightarrow> True"

text \<open>\<^verbatim>\<open>e.detail[0]?.msg\<close>, for an array \<^verbatim>\<open>e.detail\<close>.\<close>

definition detail_msg :: "json \<Rightarrow> json option" where
  "detail_msg e = opt_prop (first_element (elements (get_prop e ''detail''))) ''msg''"

text \<open>
  An error payload without an own \<^verbatim>\<open>toString\<close> property anywhere, and whose
  \<^verbatim>\<open>detail[0].msg\<close> is a string whenever it is truthy.
\<close>

definition conventional :: "json \<Rightarrow> bool" where
  "conventional e \<longleftrightarrow>
     no_own_toString e \<and> (\<not> truthy_opt (detail_msg e) \<or> typeof_opt (detail_msg e) = ''string'')"

text \<open>The response body carried by a thrown value, if it is an \<^verbatim>\<open>AxiosError\<close> with a response.\<close>

definition response_body :: "thrown \<Rightarrow> json option" where
  "response_body err =
     (case err of
        Thrown_axios ax \<Rightarrow> map_option response_data (error_response ax)
      | _ \<Rightarrow> None)"

section \<open>Path parameters and naming\<close>

lemma extract_skip_literal:
  "CHR ''{'' \<notin> set l \<Longrightarrow> extractPathParams (l @ s) = extractPathParams s"
  by (induction l) auto

lemma extract_placeholder:
  assumes "p \<noteq> []" and "CHR ''}'' \<notin> set p"
  shows "extractPathParams (CHR ''{'' # p @ CHR ''}'' # s) = p # extractPathParams s"
proof -
  have tw: "takeWhile (\<lambda>x. x \<noteq> CHR ''}'') (p @ CHR ''}'' # s) = p"
    using assms(2) by (induction p) auto
  have dw: "dropWhile (\<lambda>x. x \<noteq> CHR ''}'') (p @ CHR ''}'' # s) = CHR ''}'' # s"
    using assms(2) by (induction p) auto
  show ?thesis using assms(1) by (simp add: tw dw)
qed

text \<open>
  C4. A path template that consists of literal texts without an opening brace and of
  placeholders \<^verbatim>\<open>{p1}\<close>, ..., \<^verbatim>\<open>{pn}\<close>, each name non-empty and without a closing brace,
  yields exactly the names \<open>[p1, ..., pn]\<close>: in the order of the template, with repeated
  names repeated, and whatever characters the names are made of.
\<close>

theorem extractPathParams_round_trip:
  assumes "CHR ''{'' \<notin> set lit"
    and "\<forall>(p, l) \<in> set segs. p \<noteq> [] \<and> CHR ''}'' \<notin> set p \<and> CHR ''{'' \<notin> set l"
  shows "extractPathParams (path_template lit segs) = map fst segs"
  using assms
proof (induction lit segs rule: path_template.induct)
  case (1 lit)
  then show ?case using extract_skip_literal [of lit "[]"] by simp
next
  case (2 lit p lit' segs)
  then show ?case
    using extract_skip_literal [of lit] extract_placeholder [of p]
    by simp
qed

theorem extractPathParams_round_trip_witness:
  "extractPathParams
     (path_template ''/users/'' [(''user-id'', ''/posts/''), (''9x'', ''/''), (''user-id'', [])])
   = [''user-id'', ''9x'', ''user-id'']"
  using extractPathParams_round_trip
    [of "''/users/''" "[(''user-id'', ''/posts/''), (''9x'', ''/''), (''user-id'', [])]"]
  by simp

lemma is_sep_code: "is_sep c \<Longrightarrow> (of_char c :: nat) = 45 \<or> (of_char c :: nat) = 95"
  by (auto simp: is_sep_def)

lemma upper_not_lower: "is_lower d \<Longrightarrow> \<not> is_lower (char_of ((of_char d :: nat) - 32))"
  by (auto simp: is_lower_def)

lemma upper_not_sep: "is_lower d \<Longrightarrow> \<not> is_sep (char_of ((of_char d :: nat) - 32))"
proof
  assume l: "is_lower d" and s: "is_sep (char_of ((of_char d :: nat) - 32))"
  have v: "(of_char (char_of ((of_char d :: nat) - 32)) :: nat) = of_char d - 32"
    using l unfolding is_lower_def of_char_of by (intro mod_less) arith
  from is_sep_code [OF s] v l show False
    unfolding is_lower_def by arith
qed

lemma toCamelCase_fixed: "sep_pair_free s \<Longrightarrow> toCamelCase s = s"
  by (induction s rule: toCamelCase.induct) auto

lemma toCamelCase_head_lower:
  "toCamelCase s = x # r \<Longrightarrow> is_lower x \<Longrightarrow> \<exists>r'. s = x # r'"
  by (induction s rule: toCamelCase.induct)
     (auto simp: toUpperCase_def upper_not_lower split: if_splits)

lemma sep_pair_free_Cons:
  "sep_pair_free (c # s) \<longleftrightarrow>
     (case s of [] \<Rightarrow> True | d # _ \<Rightarrow> \<not> (is_sep c \<and> is_lower d)) \<and> sep_pair_free s"
  by (cases s) auto

lemma toCamelCase_pair_free: "sep_pair_free (toCamelCase s)"
proof (induction s rule: toCamelCase.induct)
  case (1 c d cs)
  show ?case
  proof (cases "is_sep c \<and> is_lower d")
    case True
    then show ?thesis
      using 1 by (auto simp: toUpperCase_def sep_pair_free_Cons upper_not_sep split: list.splits)
  next
    case False
    then show ?thesis
      using 1 toCamelCase_head_lower [of "d # cs"]
      by (auto simp: sep_pair_free_Cons split: list.splits)
  qed
qed simp_all

lemma toCamelCase_append_match:
  assumes "is_sep c" "is_lower d"
  shows "toCamelCase (u @ c # d # v) = toCamelCase u @ toUpperCase [d] @ toCamelCase v"
  using assms
  by (induction u rule: toCamelCase.induct) (auto simp: is_sep_def is_lower_def)

text \<open>
  C5. \<^verbatim>\<open>toCamelCase\<close> replaces every \<^verbatim>\<open>-\<close> or \<^verbatim>\<open>_\<close> that is immediately followed by a
  lowercase letter, together with that letter, by the uppercased letter (the text before
  and the text behind the pair are converted on their own); a string without such a pair
  is returned as it is; and applying the function twice gives the same as applying it
  once.
\<close>

theorem toCamelCase_collapses_and_is_idempotent:
  "(is_sep c \<and> is_lower d \<longrightarrow>
      toCamelCase (u @ c # d # v) =
        toCamelCase u @ [char_of ((of_char d :: nat) - 32)] @ toCamelCase v) \<and>
   (sep_pair_free x \<longrightarrow> toCamelCase x = x) \<and>
   toCamelCase (toCamelCase x) = toCamelCase x"
proof (intro conjI impI)
  assume "is_sep c \<and> is_lower d"
  then show "toCamelCase (u @ c # d # v) =
      toCamelCase u @ [char_of ((of_char d :: nat) - 32)] @ toCamelCase v"
    using toCamelCase_append_match [of c d u v] by (simp add: toUpperCase_def)
next
  assume "sep_pair_free x"
  then show "toCamelCase x = x" by (rule toCamelCase_fixed)
next
  show "toCamelCase (toCamelCase x) = toCamelCase x"
    by (rule toCamelCase_fixed) (rule toCamelCase_pair_free)
qed

lemma upper_letter_i: "char_of (73 :: nat) = CHR ''I''"
  by code_simp

theorem toCamelCase_collapses_and_is_idempotent_witness:
  "toCamelCase (''user'' @ CHR ''_'' # CHR ''i'' # ''d-x'') = toCamelCase ''user'' @ ''I'' @ toCamelCase ''d-x'' \<and>
   toCamelCase ''user_Id-9'' = ''user_Id-9'' \<and>
   toCamelCase (toCamelCase ''user_Id-9'') = toCamelCase ''user_Id-9''"
  using toCamelCase_collapses_and_is_idempotent
    [of "CHR ''_''" "CHR ''i''" "''user''" "''d-x''" "''user_Id-9''"]
  by (simp add: is_sep_def is_lower_def upper_letter_i)

section \<open>Extraction\<close>

text \<open>
  C8. \<^verbatim>\<open>parseOperations\<close> returns the empty list, raises nothing and makes no call on
  its logger, whenever the spec is not an object (\<^verbatim>\<open>null\<close> included) or is an object (or
  an array) without a \<^verbatim>\<open>paths\<close> key.
\<close>

theorem parseOperations_without_paths:
  assumes "typeof spec \<noteq> ''object'' \<or> spec = JNull \<or>
           (\<exists>kvs. spec = JObj kvs \<and> ''paths'' \<notin> fst ` set kvs) \<or> (\<exists>xs. spec = JArr xs)"
  shows "parseOperations spec = (Inr [], [])"
proof -
  have "map_of kvs ''paths'' = None" if "''paths'' \<notin> fst ` set kvs" for kvs :: "(string \<times> json) list"
    using that by (simp add: map_of_eq_None_iff)
  with assms show ?thesis
    by (auto simp: parseOperations_def)
qed

theorem parseOperations_without_paths_witness:
  "parseOperations (JStr ''openapi'') = (Inr [], []) \<and>
   parseOperations JNull = (Inr [], []) \<and>
   parseOperations (JObj [(''openapi'', JStr ''3.0.0''), (''info'', JObj [])]) = (Inr [], [])"
  using parseOperations_without_paths [of "JStr ''openapi''"]
    parseOperations_without_paths [of JNull]
    parseOperations_without_paths [of "JObj [(''openapi'', JStr ''3.0.0''), (''info'', JObj [])]"]
  by simp

lemma some_in_query_total: "JNull \<notin> set ps \<Longrightarrow> \<exists>b. some_in_query ps = Inr b"
  by (induction ps) (auto simp: read_prop_def)

lemma query_params_present_total:
  "parameters_searchable v \<Longrightarrow> \<exists>b. query_params_present v = Inr b"
  by (cases v rule: query_params_present.cases)
     (auto simp: parameters_searchable_def some_in_query_total)

lemma id_test_iff:
  "\<not> (\<not> truthy_opt (opt_prop operation ''operationId'') \<or>
       typeof_opt (opt_prop operation ''operationId'') \<noteq> ''string'') \<longleftrightarrow> has_string_id operation"
proof (cases "opt_prop operation ''operationId''")
  case None
  then show ?thesis by (simp add: has_string_id_def truthy_opt_def typeof_opt_def)
next
  case (Some v)
  then show ?thesis
    by (cases v) (auto simp: has_string_id_def truthy_opt_def typeof_opt_def)
qed

lemma parse_method_step:
  assumes "pathItem \<noteq> JNull"
    and "parameters_searchable (opt_prop (get_prop pathItem m) ''parameters'')"
  shows "\<exists>ds cs. parse_method p pathItem m (ops, calls) = Inr (ops @ ds, calls @ cs) \<and>
           map slot_of ds = (if extractable pathItem m then [(p, m)] else [])"
proof (cases "truthy_opt (get_prop pathItem m)")
  case False
  then show ?thesis
    using assms(1) by (simp add: parse_method_def read_prop_def extractable_def)
next
  case True
  show ?thesis
  proof (cases "has_string_id (get_prop pathItem m)")
    case False
    with True assms(1) id_test_iff [of "get_prop pathItem m"] show ?thesis
      by (auto simp: parse_method_def read_prop_def extractable_def Let_def)
  next
    case h: True
    from query_params_present_total [OF assms(2)] obtain b
      where b: "query_params_present (opt_prop (get_prop pathItem m) ''parameters'') = Inr b" ..
    from True h assms(1) id_test_iff [of "get_prop pathItem m"] b show ?thesis
      by (auto simp: parse_method_def read_prop_def extractable_def Let_def)
  qed
qed

lemma parse_methods_steps:
  assumes "pathItem \<noteq> JNull"
    and "\<forall>m \<in> set ms. parameters_searchable (opt_prop (get_prop pathItem m) ''parameters'')"
  shows "\<exists>ds cs. parse_methods p pathItem ms (ops, calls) = Inr (ops @ ds, calls @ cs) \<and>
           map slot_of ds = map (\<lambda>m. (p, m)) (filter (extractable pathItem) ms)"
  using assms(2)
proof (induction ms arbitrary: ops calls)
  case Nil
  then show ?case by simp
next
  case (Cons m ms)
  from parse_method_step [OF assms(1), of m p ops calls] Cons.prems
  obtain ds cs where 1: "parse_method p pathItem m (ops, calls) = Inr (ops @ ds, calls @ cs)"
    and 2: "map slot_of ds = (if extractable pathItem m then [(p, m)] else [])"
    by auto
  from Cons.IH [of "ops @ ds" "calls @ cs"] Cons.prems
  obtain ds' cs' where 3: "parse_methods p pathItem ms (ops @ ds, calls @ cs) = Inr ((ops @ ds) @ ds', (calls @ cs) @ cs')"
    and 4: "map slot_of ds' = map (\<lambda>m. (p, m)) (filter (extractable pathItem) ms)"
    by auto
  show ?case
    apply (rule exI [of _ "ds @ ds'"])
    apply (rule exI [of _ "cs @ cs'"])
    using 1 2 3 4 by simp
qed

lemma parse_paths_steps:
  assumes "\<forall>(k, pathItem) \<in> set entries. path_item_readable pathItem"
  shows "\<exists>ds cs. parse_paths entries (ops, calls) = Inr (ops @ ds, calls @ cs) \<and>
           map slot_of ds = extractable_slots entries"
  using assms
proof (induction entries arbitrary: ops calls)
  case Nil
  then show ?case by (simp add: extractable_slots_def)
next
  case (Cons entry entries)
  obtain p pathItem where entry: "entry = (p, pathItem)" by (cases entry)
  with Cons.prems have r: "path_item_readable pathItem" by simp
  from parse_methods_steps [of pathItem http_methods p ops calls] r
  obtain ds cs where 1: "parse_methods p pathItem http_methods (ops, calls) = Inr (ops @ ds, calls @ cs)"
    and 2: "map slot_of ds = map (\<lambda>m. (p, m)) (filter (extractable pathItem) http_methods)"
    by (auto simp: path_item_readable_def)
  from Cons.IH [of "ops @ ds" "calls @ cs"] Cons.prems
  obtain ds' cs' where 3: "parse_paths entries (ops @ ds, calls @ cs) = Inr ((ops @ ds) @ ds', (calls @ cs) @ cs')"
    and 4: "map slot_of ds' = extractable_slots entries"
    by auto
  show ?case
    apply (rule exI [of _ "ds @ ds'"])
    apply (rule exI [of _ "cs @ cs'"])
    using 1 2 3 4 entry by (simp add: extractable_slots_def)
qed

text \<open>
  Where extraction does complete: if no path item is \<^verbatim>\<open>null\<close> and the \<^verbatim>\<open>parameters\<close> of
  every operation are absent, \<^verbatim>\<open>null\<close> or an array without a \<^verbatim>\<open>null\<close> entry, it raises
  nothing and returns one descriptor for each operation that has a non-empty string
  \<^verbatim>\<open>operationId\<close>, in document order, skipping every other operation, whatever
  \<^verbatim>\<open>summary\<close>, \<^verbatim>\<open>description\<close> or \<^verbatim>\<open>requestBody\<close> the operations have.
\<close>

lemma parseOperations_completes:
  assumes "\<forall>paths. get_prop spec ''paths'' = Some paths \<longrightarrow>
             (\<forall>(k, pathItem) \<in> set (object_entries paths). path_item_readable pathItem)"
  shows "\<exists>ops. fst (parseOperations spec) = Inr ops \<and>
           (\<forall>paths. get_prop spec ''paths'' = Some paths \<and> truthy paths \<longrightarrow>
              map (\<lambda>d. (path d, method d)) ops = extractable_slots (object_entries paths))"
proof (cases "get_prop spec ''paths''")
  case None
  then show ?thesis by (cases spec) (auto simp: parseOperations_def)
next
  case (Some paths)
  with assms have "\<forall>(k, pathItem) \<in> set (object_entries paths). path_item_readable pathItem"
    by simp
  from parse_paths_steps [OF this, of "[]" "[]"]
  obtain ds cs where 1: "parse_paths (object_entries paths) ([], []) = Inr (ds, cs)"
    and 2: "map slot_of ds = extractable_slots (object_entries paths)"
    by auto
  from Some obtain kvs where "spec = JObj kvs" by (cases spec) auto
  with Some 1 2 show ?thesis
    by (auto simp: parseOperations_def)
qed

lemma parseOperations_completes_example:
  "\<exists>ops. fst (parseOperations
      (JObj [(''paths'', JObj [(''/pets'', JObj
         [(''get'', JObj [(''summary'', JNum 7)]),
          (''post'', JObj [(''operationId'', JStr ''addPet''),
                          (''parameters'', JArr [JObj [(''in'', JStr ''query'')]])])])])])) = Inr ops \<and>
     map (\<lambda>d. (path d, method d)) ops = [(''/pets'', ''post'')]"
  using parseOperations_completes
    [of "JObj [(''paths'', JObj [(''/pets'', JObj
         [(''get'', JObj [(''summary'', JNum 7)]),
          (''post'', JObj [(''operationId'', JStr ''addPet''),
                          (''parameters'', JArr [JObj [(''in'', JStr ''query'')]])])])])]"]
  by (simp add: path_item_readable_def parameters_searchable_def http_methods_def opt_prop_def
      extractable_slots_def extractable_def has_string_id_def truthy_opt_def)

text \<open>
  C2. A malformed operation can abort the whole extraction. In a document with a
  well-formed \<^verbatim>\<open>get\<close> operation and a \<^verbatim>\<open>post\<close> operation whose \<^verbatim>\<open>parameters\<close> is an
  object instead of an array, \<^verbatim>\<open>parameters?.some\<close> is called on the object and raises a
  \<^verbatim>\<open>TypeError\<close>: \<^verbatim>\<open>parseOperations\<close> returns no list, and the descriptor already found
  for the \<^verbatim>\<open>get\<close> operation is lost with it.
\<close>

theorem parseOperations_raises_on_parameters_object:
  "parseOperations
     (JObj [(''paths'', JObj [(''/pets'', JObj
        [(''get'', JObj [(''operationId'', JStr ''listPets'')]),
         (''post'', JObj [(''operationId'', JStr ''addPet''), (''parameters'', JObj [])])])])])
   = (Inl TypeError, [Debug_found ''listPets''])"
  by code_simp

theorem parseOperations_raises_on_parameters_object_witness:
  "isl (fst (parseOperations
     (JObj [(''paths'', JObj [(''/pets'', JObj
        [(''get'', JObj [(''operationId'', JStr ''listPets'')]),
         (''post'', JObj [(''operationId'', JStr ''addPet''), (''parameters'', JObj [])])])])])))"
  using parseOperations_raises_on_parameters_object by simp

text \<open>
  Where the validator warns of a missing \<^verbatim>\<open>operationId\<close>, the extractor skips the
  operation and logs the skip.
\<close>

lemma validator_warning_implies_skip:
  assumes "pathItem \<noteq> JNull"
    and "\<lparr>severity = Severity_warning,
          issue_path = ''/paths'' @ pathKey @ ''/'' @ m,
          issue_message = ''Missing operationId - operation will be skipped during generation''\<rparr>
         \<in> set (validate_method pathKey pathItem m)"
  shows "parse_method pathKey pathItem m (ops, calls) =
           Inr (ops, calls @ [Warn_skipping (toUpperCase m) pathKey])"
proof -
  from assms(2) have "truthy_opt (get_prop pathItem m)"
    and "\<not> truthy_opt (opt_prop (get_prop pathItem m) ''operationId'')"
    by (auto simp: validate_method_def Let_def split: if_splits)
  with assms(1) show ?thesis
    by (simp add: parse_method_def read_prop_def Let_def)
qed

text \<open>
  C3. The extractor skips an operation whose \<^verbatim>\<open>operationId\<close> is missing, falsy or not
  a string; the validator warns only when it is missing or falsy. On a document whose
  single operation has the \<^verbatim>\<open>operationId\<close> 7 the validator reports no issue at all,
  and the extractor returns no descriptor and logs that it skips the operation.
\<close>

theorem validator_silent_where_extractor_skips:
  "validateSpec
     (JObj [(''openapi'', JStr ''3.0.0''), (''info'', JObj [(''title'', JStr ''Pets'')]),
            (''paths'', JObj [(''/pets'', JObj [(''get'',
               JObj [(''operationId'', JNum 7), (''responses'', JObj [])])])])]) = [] \<and>
   parseOperations
     (JObj [(''openapi'', JStr ''3.0.0''), (''info'', JObj [(''title'', JStr ''Pets'')]),
            (''paths'', JObj [(''/pets'', JObj [(''get'',
               JObj [(''operationId'', JNum 7), (''responses'', JObj [])])])])])
   = (Inr [], [Warn_skipping ''GET'' ''/pets''])"
  by code_simp

theorem validator_silent_where_extractor_skips_witness:
  "filter (\<lambda>issue. severity issue = Severity_warning)
     (validateSpec
        (JObj [(''openapi'', JStr ''3.0.0''), (''info'', JObj [(''title'', JStr ''Pets'')]),
               (''paths'', JObj [(''/pets'', JObj [(''get'',
                  JObj [(''operationId'', JNum 7), (''responses'', JObj [])])])])])) = [] \<and>
   fst (parseOperations
        (JObj [(''openapi'', JStr ''3.0.0''), (''info'', JObj [(''title'', JStr ''Pets'')]),
               (''paths'', JObj [(''/pets'', JObj [(''get'',
                  JObj [(''operationId'', JNum 7), (''responses'', JObj [])])])])])) = Inr []"
  using validator_silent_where_extractor_skips by simp

section \<open>Emission\<close>

text \<open>
  C1. Extraction followed by rendering of the operations module depends on the clock
  through the time stamp alone, and on nothing else but the spec document: for two runs on
  the same document, at any two times, either both raise the same exception, or the two
  outputs consist of the same text before the stamp, the stamp of the run, and the same
  text after it.
\<close>

theorem render_spec_deterministic:
  "(\<exists>e. render_spec num now1 spec = Inl e \<and> render_spec num now2 spec = Inl e) \<or>
   (\<exists>rest. render_spec num now1 spec = Inr (text_before_stamp @ now1 @ rest) \<and>
           render_spec num now2 spec = Inr (text_before_stamp @ now2 @ rest))"
proof (cases "fst (parseOperations spec)")
  case (Inl e)
  then show ?thesis by (simp add: render_spec_def)
next
  case (Inr operations)
  show ?thesis
  proof (cases "generate_all num operations")
    case (Inl e)
    with Inr show ?thesis
      by (simp add: render_spec_def generateOperationsFileContent_def)
  next
    case fs: (Inr operationFunctions)
    with Inr show ?thesis
      by (simp add: render_spec_def generateOperationsFileContent_def operations_header_def
          text_before_stamp_def)
  qed
qed

text \<open>
  The call shapes as the code chooses them: \<^verbatim>\<open>data\<close> whenever the operation has a
  request body, \<^verbatim>\<open>undefined\<close> for a \<^verbatim>\<open>patch\<close> without one, no body argument otherwise;
  then \<^verbatim>\<open>pathParams\<close> if the path has parameters; then \<^verbatim>\<open>config\<close>.
\<close>

lemma apiCall_shapes:
  \<open>apiCall operation =
     ''apiClient.'' @ toLowerCase (method operation) @ ''("'' @ path operation @ ''", '' @
     (if hasRequestBody operation then ''data, ''
      else if toLowerCase (method operation) = ''patch'' then ''undefined, '' else []) @
     (if pathParams operation \<noteq> [] then ''pathParams, '' else []) @ ''config)''\<close>
  by (simp add: apiCall_def Let_def)

text \<open>
  C7. The call shape is chosen by \<^verbatim>\<open>hasRequestBody\<close> first and by the method only
  afterwards: a \<^verbatim>\<open>delete\<close> operation with a request body, as the extractor produces it
  from a spec, is rendered with \<^verbatim>\<open>data\<close> in the second argument position, not as
  \<^verbatim>\<open>call(path, config)\<close>.
\<close>

theorem apiCall_delete_with_body:
  \<open>fst (parseOperations
     (JObj [(''paths'', JObj [(''/pets'', JObj [(''delete'',
        JObj [(''operationId'', JStr ''removePets''), (''requestBody'', JObj [])])])])]))
   = Inr [\<lparr>operationId = ''removePets'', method = ''delete'', path = ''/pets'',
            pathParams = [], hasRequestBody = True, hasQueryParams = False,
            summary = JStr [], description = JStr []\<rparr>] \<and>
   apiCall \<lparr>operationId = ''removePets'', method = ''delete'', path = ''/pets'',
            pathParams = [], hasRequestBody = True, hasQueryParams = False,
            summary = JStr [], description = JStr []\<rparr>
   = ''apiClient.delete("/pets", data, config)''\<close>
  by code_simp

theorem apiCall_delete_with_body_witness:
  \<open>apiCall \<lparr>operationId = ''removePets'', method = ''delete'', path = ''/pets'',
            pathParams = [], hasRequestBody = True, hasQueryParams = False,
            summary = JStr [], description = JStr []\<rparr>
   \<noteq> ''apiClient.delete("/pets", config)''\<close>
  using apiCall_delete_with_body by simp

text \<open>The scenario of a \<^verbatim>\<open>patch\<close> operation without a body and with a path parameter.\<close>

lemma apiCall_patch_without_body:
  \<open>apiCall \<lparr>operationId = ''touchPet'', method = ''patch'', path = ''/pets/{id}'',
            pathParams = [''id''], hasRequestBody = False, hasQueryParams = False,
            summary = JStr [], description = JStr []\<rparr>
   = ''apiClient.patch("/pets/{id}", undefined, pathParams, config)''\<close>
  by code_simp

section \<open>The diff command\<close>

lemma map_has_get: "map_has k m \<longleftrightarrow> map_get k m \<noteq> None"
  by (induction m) auto

lemma find_added_modified_closed:
  "find_added_modified cur new (a, m) =
     (a @ map snd (filter (\<lambda>entry. \<not> map_has (fst entry) cur) new),
      m @ concat (map (changed_pair cur) new))"
  by (induction new arbitrary: a m)
     (auto simp: changed_pair_def map_has_get split: option.splits)

lemma find_removed_closed:
  "find_removed new cur r = r @ map snd (filter (\<lambda>entry. \<not> map_has (fst entry) new) cur)"
  by (induction cur arbitrary: r) auto

lemma compute_differences_closed:
  "compute_differences cur new =
     \<lparr>added = map snd (filter (\<lambda>entry. \<not> map_has (fst entry) cur) new),
      removed = map snd (filter (\<lambda>entry. \<not> map_has (fst entry) new) cur),
      modified = concat (map (changed_pair cur) new)\<rparr>"
  by (simp add: compute_differences_def find_added_modified_closed find_removed_closed)

lemma strict_eq_primitive: "primitive a \<Longrightarrow> strict_eq a b \<longleftrightarrow> a = b"
  by (cases a) auto

lemma map_get_primitive:
  "\<forall>k \<in> fst ` set m. primitive k \<Longrightarrow> map_get k m = map_of m k"
  by (induction m) (auto simp: strict_eq_primitive)

lemma hasChanges_primitive:
  "primitive (info_summary a) \<Longrightarrow> hasChanges a b \<longleftrightarrow> compared_fields a \<noteq> compared_fields b"
  by (auto simp: hasChanges_def compared_fields_def strict_eq_primitive)

lemma keyed_ids:
  assumes "\<forall>(k, v) \<in> set m. info_operationId v = k"
  shows "info_operationId ` snd ` {e \<in> set m. P (fst e)} = {k \<in> fst ` set m. P k}"
  using assms by force

lemma changed_pair_ids:
  assumes "distinct (map fst new)" and "\<forall>(k, v) \<in> set new. info_operationId v = k"
  shows "distinct (map (\<lambda>p. info_operationId (snd p)) (concat (map (changed_pair cur) new)))"
  using assms
proof (induction new)
  case Nil
  then show ?case by simp
next
  case (Cons entry new)
  obtain k v where entry: "entry = (k, v)" by (cases entry)
  with Cons.prems have id: "info_operationId v = k" and fresh: "k \<notin> fst ` set new"
    and rest: "distinct (map fst new)" "\<forall>(k, v) \<in> set new. info_operationId v = k"
    by auto
  have "info_operationId (snd p) \<in> fst ` set new"
    if "p \<in> set (concat (map (changed_pair cur) new))" for p
    using that rest(2) by (force simp: changed_pair_def split: option.splits if_splits)
  with fresh have "k \<notin> (\<lambda>p. info_operationId (snd p)) ` set (concat (map (changed_pair cur) new))"
    by auto
  with Cons.IH [OF rest] entry id show ?case
    by (auto simp: changed_pair_def split: option.splits)
qed

lemma changed_pair_member:
  "(a, b) \<in> set (concat (map (changed_pair cur) new)) \<longleftrightarrow>
     (\<exists>k. (k, b) \<in> set new \<and> map_get k cur = Some a \<and> hasChanges a b)"
  by (auto simp: changed_pair_def split: option.splits if_splits) force

lemma changed_pair_unfold:
  "changed_pair cur =
     (\<lambda>(k, b). case map_get k cur of
                None \<Rightarrow> []
              | Some a \<Rightarrow>
                  if info_method a \<noteq> info_method b \<or>
                     info_path a \<noteq> info_path b \<or>
                     info_hasRequestBody a \<noteq> info_hasRequestBody b \<or>
                     \<not> strict_eq (info_summary a) (info_summary b)
                  then [(a, b)] else [])"
  by (rule ext) (auto simp: changed_pair_def hasChanges_def split: option.splits)

text \<open>
  C6. For every old and new operation map, the added operations are the entries of the
  new map whose key the old map does not have, the removed ones the entries of the old
  map whose key the new map does not have, and \<^verbatim>\<open>modified\<close> holds, for each entry of the
  new map whose key the old map has, the pair of the old and the new descriptor if the two
  differ in \<^verbatim>\<open>method\<close>, \<^verbatim>\<open>path\<close>, \<^verbatim>\<open>hasRequestBody\<close> or \<^verbatim>\<open>summary\<close>, and nothing
  otherwise; keys are compared as \<^verbatim>\<open>Map\<close> compares them and summaries by \<^verbatim>\<open>!==\<close>. For
  maps keyed by \<^verbatim>\<open>operationId\<close> whose ids and summaries are compared as values, with id
  sets \<open>A\<close> (old) and \<open>B\<close> (new), this is: the ids of the added operations are \<open>B - A\<close>,
  those of the removed ones \<open>A - B\<close>, a pair is in \<^verbatim>\<open>modified\<close> exactly if it is the old and
  the new descriptor of an id in both maps and the two differ in one of the four fields,
  and no id occurs in \<^verbatim>\<open>modified\<close> twice. No other field exists that could be compared.
\<close>

theorem diff_classification:
  fixes old_ops new_ops :: operation_map
  shows "added (compute_differences old_ops new_ops) =
           map snd (filter (\<lambda>(k, v). \<not> map_has k old_ops) new_ops) \<and>
         removed (compute_differences old_ops new_ops) =
           map snd (filter (\<lambda>(k, v). \<not> map_has k new_ops) old_ops) \<and>
         modified (compute_differences old_ops new_ops) =
           concat (map (\<lambda>(k, b). case map_get k old_ops of
                                    None \<Rightarrow> []
                                  | Some a \<Rightarrow>
                                      if info_method a \<noteq> info_method b \<or>
                                         info_path a \<noteq> info_path b \<or>
                                         info_hasRequestBody a \<noteq> info_hasRequestBody b \<or>
                                         \<not> strict_eq (info_summary a) (info_summary b)
                                      then [(a, b)] else []) new_ops) \<and>
         (keyed_by_operationId old_ops \<and> keyed_by_operationId new_ops \<longrightarrow>
            info_operationId ` set (added (compute_differences old_ops new_ops)) =
              fst ` set new_ops - fst ` set old_ops \<and>
            info_operationId ` set (removed (compute_differences old_ops new_ops)) =
              fst ` set old_ops - fst ` set new_ops \<and>
            (\<forall>a b. (a, b) \<in> set (modified (compute_differences old_ops new_ops)) \<longleftrightarrow>
               (\<exists>k \<in> fst ` set old_ops \<inter> fst ` set new_ops.
                  map_of old_ops k = Some a \<and> map_of new_ops k = Some b \<and>
                  compared_fields a \<noteq> compared_fields b)) \<and>
            distinct (map (\<lambda>p. info_operationId (snd p))
                        (modified (compute_differences old_ops new_ops))))"
proof (intro conjI impI)
  show "added (compute_differences old_ops new_ops) =
           map snd (filter (\<lambda>(k, v). \<not> map_has k old_ops) new_ops)"
    by (simp add: compute_differences_closed case_prod_unfold)
  show "removed (compute_differences old_ops new_ops) =
           map snd (filter (\<lambda>(k, v). \<not> map_has k new_ops) old_ops)"
    by (simp add: compute_differences_closed case_prod_unfold)
  show "modified (compute_differences old_ops new_ops) =
           concat (map (\<lambda>(k, b). case map_get k old_ops of
                                    None \<Rightarrow> []
                                  | Some a \<Rightarrow>
                                      if info_method a \<noteq> info_method b \<or>
                                         info_path a \<noteq> info_path b \<or>
                                         info_hasRequestBody a \<noteq> info_hasRequestBody b \<or>
                                         \<not> strict_eq (info_summary a) (info_summary b)
                                      then [(a, b)] else []) new_ops)"
    by (simp add: compute_differences_closed changed_pair_unfold)
next
  assume keyed: "keyed_by_operationId old_ops \<and> keyed_by_operationId new_ops"
  then have ko: "\<forall>(k, v) \<in> set old_ops. info_operationId v = k"
    and kn: "\<forall>(k, v) \<in> set new_ops. info_operationId v = k"
    and dn: "distinct (map fst new_ops)" and do: "distinct (map fst old_ops)"
    and po: "\<forall>k \<in> fst ` set old_ops. primitive k"
    and pn: "\<forall>k \<in> fst ` set new_ops. primitive k"
    and so: "\<forall>(k, v) \<in> set old_ops. primitive (info_summary v)"
    by (auto simp: keyed_by_operationId_def)
  have has_old: "map_has k old_ops \<longleftrightarrow> k \<in> fst ` set old_ops" for k
    using map_get_primitive [OF po] by (simp add: map_has_get map_of_eq_None_iff)
  have has_new: "map_has k new_ops \<longleftrightarrow> k \<in> fst ` set new_ops" for k
    using map_get_primitive [OF pn] by (simp add: map_has_get map_of_eq_None_iff)
  show "info_operationId ` set (added (compute_differences old_ops new_ops)) =
           fst ` set new_ops - fst ` set old_ops"
    using keyed_ids [OF kn, of "\<lambda>k. k \<notin> fst ` set old_ops"]
    by (auto simp: compute_differences_closed has_old)
  show "info_operationId ` set (removed (compute_differences old_ops new_ops)) =
           fst ` set old_ops - fst ` set new_ops"
    using keyed_ids [OF ko, of "\<lambda>k. k \<notin> fst ` set new_ops"]
    by (auto simp: compute_differences_closed has_new)
  show "\<forall>a b. (a, b) \<in> set (modified (compute_differences old_ops new_ops)) \<longleftrightarrow>
               (\<exists>k \<in> fst ` set old_ops \<inter> fst ` set new_ops.
                  map_of old_ops k = Some a \<and> map_of new_ops k = Some b \<and>
                  compared_fields a \<noteq> compared_fields b)"
  proof (intro allI iffI)
    fix a b
    assume "(a, b) \<in> set (modified (compute_differences old_ops new_ops))"
    then have "(a, b) \<in> set (concat (map (changed_pair old_ops) new_ops))"
      by (simp add: compute_differences_closed)
    then obtain k where k: "(k, b) \<in> set new_ops" "map_get k old_ops = Some a" "hasChanges a b"
      unfolding changed_pair_member by blast
    from k(2) have a: "map_of old_ops k = Some a" by (simp add: map_get_primitive [OF po])
    then have "(k, a) \<in> set old_ops" by (rule map_of_SomeD)
    with so have "primitive (info_summary a)" by auto
    with k(3) have "compared_fields a \<noteq> compared_fields b" by (simp add: hasChanges_primitive)
    moreover from k(1) dn have "map_of new_ops k = Some b" by simp
    moreover from k(1) a have "k \<in> fst ` set old_ops \<inter> fst ` set new_ops"
      by (force dest: map_of_SomeD)
    ultimately show "\<exists>k \<in> fst ` set old_ops \<inter> fst ` set new_ops.
                  map_of old_ops k = Some a \<and> map_of new_ops k = Some b \<and>
                  compared_fields a \<noteq> compared_fields b"
      using a by blast
  next
    fix a b
    assume "\<exists>k \<in> fst ` set old_ops \<inter> fst ` set new_ops.
                  map_of old_ops k = Some a \<and> map_of new_ops k = Some b \<and>
                  compared_fields a \<noteq> compared_fields b"
    then obtain k where a: "map_of old_ops k = Some a" and b: "map_of new_ops k = Some b"
      and c: "compared_fields a \<noteq> compared_fields b" by auto
    from a have "(k, a) \<in> set old_ops" by (rule map_of_SomeD)
    with so have "primitive (info_summary a)" by auto
    with c have "hasChanges a b" by (simp add: hasChanges_primitive)
    moreover from b have "(k, b) \<in> set new_ops" by (rule map_of_SomeD)
    moreover from a have "map_get k old_ops = Some a" by (simp add: map_get_primitive [OF po])
    ultimately have "(a, b) \<in> set (concat (map (changed_pair old_ops) new_ops))"
      unfolding changed_pair_member by blast
    then show "(a, b) \<in> set (modified (compute_differences old_ops new_ops))"
      by (simp add: compute_differences_closed)
  qed
  show "distinct (map (\<lambda>p. info_operationId (snd p))
                        (modified (compute_differences old_ops new_ops)))"
    using changed_pair_ids [OF dn kn, of old_ops] by (simp add: compute_differences_closed)
qed

theorem diff_classification_witness:
  "info_operationId ` set (added (compute_differences example_current example_new)) = {JStr ''getPet''} \<and>
   info_operationId ` set (removed (compute_differences example_current example_new)) = {JStr ''listPets''} \<and>
   distinct (map (\<lambda>p. info_operationId (snd p))
               (modified (compute_differences example_current example_new)))"
proof -
  have c: "keyed_by_operationId example_current"
    by (simp add: keyed_by_operationId_def example_current_def)
  have n: "keyed_by_operationId example_new"
    by (simp add: keyed_by_operationId_def example_new_def)
  have keys: "fst ` set example_current = {JStr ''listPets'', JStr ''addPet''}"
    "fst ` set example_new = {JStr ''addPet'', JStr ''getPet''}"
    by (simp_all add: example_current_def example_new_def)
  have diffs: "{JStr ''addPet'', JStr ''getPet''} - {JStr ''listPets'', JStr ''addPet''} = {JStr ''getPet''}"
    "{JStr ''listPets'', JStr ''addPet''} - {JStr ''addPet'', JStr ''getPet''} = {JStr ''listPets''}"
    by auto
  note t = diff_classification [of example_current example_new,
      THEN conjunct2, THEN conjunct2, THEN conjunct2, THEN mp, OF conjI [OF c n]]
  have 1: "info_operationId ` set (added (compute_differences example_current example_new)) =
          {JStr ''getPet''}"
    using t [THEN conjunct1] by (simp only: keys diffs)
  have 2: "info_operationId ` set (removed (compute_differences example_current example_new)) =
          {JStr ''listPets''}"
    using t [THEN conjunct2, THEN conjunct1] by (simp only: keys diffs)
  from 1 2 t [THEN conjunct2, THEN conjunct2, THEN conjunct2] show ?thesis
    by (intro conjI)
qed

text \<open>
  An array or object \<^verbatim>\<open>operationId\<close> is a key that no other map has, and an array or
  object \<^verbatim>\<open>summary\<close> differs from every other: the operation is reported as added and
  removed, or as modified, also between two equal documents.
\<close>

lemma diff_of_array_operationId:
  "compute_differences
     [(JArr [JNum 1], \<lparr>info_operationId = JArr [JNum 1], info_method = ''get'', info_path = ''/pets'',
                        info_hasRequestBody = False, info_summary = JStr []\<rparr>)]
     [(JArr [JNum 1], \<lparr>info_operationId = JArr [JNum 1], info_method = ''get'', info_path = ''/pets'',
                        info_hasRequestBody = False, info_summary = JStr []\<rparr>)]
   = \<lparr>added = [\<lparr>info_operationId = JArr [JNum 1], info_method = ''get'', info_path = ''/pets'',
                     info_hasRequestBody = False, info_summary = JStr []\<rparr>],
      removed = [\<lparr>info_operationId = JArr [JNum 1], info_method = ''get'', info_path = ''/pets'',
                       info_hasRequestBody = False, info_summary = JStr []\<rparr>],
      modified = []\<rparr>"
  by code_simp

lemma diff_of_array_summary:
  "modified (compute_differences
     [(JStr ''listPets'', \<lparr>info_operationId = JStr ''listPets'', info_method = ''get'', info_path = ''/pets'',
                        info_hasRequestBody = False, info_summary = JArr []\<rparr>)]
     [(JStr ''listPets'', \<lparr>info_operationId = JStr ''listPets'', info_method = ''get'', info_path = ''/pets'',
                        info_hasRequestBody = False, info_summary = JArr []\<rparr>)])
   = [(\<lparr>info_operationId = JStr ''listPets'', info_method = ''get'', info_path = ''/pets'',
         info_hasRequestBody = False, info_summary = JArr []\<rparr>,
       \<lparr>info_operationId = JStr ''listPets'', info_method = ''get'', info_path = ''/pets'',
         info_hasRequestBody = False, info_summary = JArr []\<rparr>)]"
  by code_simp

lemma strict_eq_imp_eq: "strict_eq a b \<Longrightarrow> a = b"
  by (cases a) auto

lemma map_set_keys: "fst ` set (map_set k v m) = insert k (fst ` set m)"
proof (induction m)
  case Nil
  then show ?case by simp
next
  case (Cons entry m)
  obtain k' v' where entry: "entry = (k', v')" by (cases entry)
  show ?case
  proof (cases "strict_eq k' k")
    case True
    then have "k' = k" by (rule strict_eq_imp_eq)
    with True entry show ?thesis by simp
  next
    case False
    with entry Cons.IH show ?thesis by (simp add: insert_commute)
  qed
qed

lemma string_id_value:
  "\<not> (\<not> truthy_opt v \<or> typeof_opt v \<noteq> ''string'') \<Longrightarrow> \<exists>s. v = Some (JStr s) \<and> s \<noteq> []"
  by (cases v; cases "the v") (auto simp: truthy_opt_def typeof_opt_def)

lemma extract_method_follows:
  assumes "parse_method p pathItem m (ops, calls) = Inr (ops', calls')"
    and "ids_covered ops M"
  shows "\<exists>M'. extract_method p pathItem m M = Inr M' \<and> ids_covered ops' M'"
proof (cases "pathItem = JNull")
  case True
  with assms show ?thesis by (simp add: parse_method_def read_prop_def)
next
  case item: False
  show ?thesis
  proof (cases "truthy_opt (get_prop pathItem m)")
    case False
    with assms item show ?thesis
      by (simp add: parse_method_def extract_method_def read_prop_def)
  next
    case op: True
    let ?v = "opt_prop (get_prop pathItem m) ''operationId''"
    show ?thesis
    proof (cases "\<not> truthy_opt ?v \<or> typeof_opt ?v \<noteq> ''string''")
      case True
      with assms item op have "ops' = ops"
        by (auto simp: parse_method_def read_prop_def Let_def)
      with assms(2) item op show ?thesis
        by (auto simp: extract_method_def read_prop_def ids_covered_def map_set_keys
            split: option.splits)
    next
      case False
      from string_id_value [OF False] obtain s where s: "?v = Some (JStr s)" "s \<noteq> []" by auto
      from False assms(1) item op s have "\<forall>d \<in> set ops'. operationId d = s \<or> d \<in> set ops"
        by (auto simp: parse_method_def read_prop_def Let_def split: sum.splits)
      with assms(2) item op s show ?thesis
        by (auto simp: extract_method_def read_prop_def ids_covered_def map_set_keys)
    qed
  qed
qed

lemma extract_methods_follow:
  assumes "parse_methods p pathItem ms (ops, calls) = Inr (ops', calls')"
    and "ids_covered ops M"
  shows "\<exists>M'. extract_methods p pathItem ms M = Inr M' \<and> ids_covered ops' M'"
  using assms
proof (induction ms arbitrary: ops calls M)
  case Nil
  then show ?case by simp
next
  case (Cons m ms)
  from Cons.prems(1) obtain ops1 calls1
    where 1: "parse_method p pathItem m (ops, calls) = Inr (ops1, calls1)"
      and 2: "parse_methods p pathItem ms (ops1, calls1) = Inr (ops', calls')"
    by (auto split: sum.splits)
  from extract_method_follows [OF 1 Cons.prems(2)] obtain M1
    where 3: "extract_method p pathItem m M = Inr M1" and 4: "ids_covered ops1 M1" by auto
  from Cons.IH [OF 2 4] 3 show ?case by simp
qed

lemma extract_paths_follow:
  assumes "parse_paths entries (ops, calls) = Inr (ops', calls')"
    and "ids_covered ops M"
  shows "\<exists>M'. extract_paths entries M = Inr M' \<and> ids_covered ops' M'"
  using assms
proof (induction entries arbitrary: ops calls M)
  case Nil
  then show ?case by simp
next
  case (Cons entry entries)
  obtain p pathItem where entry: "entry = (p, pathItem)" by (cases entry)
  from Cons.prems(1) entry obtain ops1 calls1
    where 1: "parse_methods p pathItem http_methods (ops, calls) = Inr (ops1, calls1)"
      and 2: "parse_paths entries (ops1, calls1) = Inr (ops', calls')"
    by (auto split: sum.splits)
  from extract_methods_follow [OF 1 Cons.prems(2)] obtain M1
    where 3: "extract_methods p pathItem http_methods M = Inr M1" and 4: "ids_covered ops1 M1"
    by auto
  from Cons.IH [OF 2 4] 3 entry show ?case by simp
qed

lemma extractOperations_covers:
  assumes "fst (parseOperations spec) = Inr ops"
  shows "\<exists>m. extractOperations spec = Inr m \<and> JStr ` operationId ` set ops \<subseteq> fst ` set m"
proof (cases "typeof spec \<noteq> ''object'' \<or> spec = JNull")
  case True
  with assms show ?thesis by (auto simp: parseOperations_def extractOperations_def)
next
  case obj: False
  show ?thesis
  proof (cases "get_prop spec ''paths''")
    case None
    with assms obj show ?thesis by (auto simp: parseOperations_def extractOperations_def)
  next
    case (Some paths)
    show ?thesis
    proof (cases "truthy paths")
      case False
      with assms obj Some show ?thesis by (auto simp: parseOperations_def extractOperations_def)
    next
      case True
      with assms obj Some obtain calls
        where "parse_paths (object_entries paths) ([], []) = Inr (ops, calls)"
        by (auto simp: parseOperations_def split: sum.splits prod.splits)
      from extract_paths_follow [OF this, of "[]"] obj Some True show ?thesis
        by (auto simp: extractOperations_def ids_covered_def)
    qed
  qed
qed

text \<open>
  C10. Whenever \<^verbatim>\<open>parseOperations\<close> returns a list, \<^verbatim>\<open>extractOperations\<close> returns a
  map on the same spec, and every \<^verbatim>\<open>operationId\<close> of the list is a key of the map. The
  inclusion can be strict: for an operation with the \<^verbatim>\<open>operationId\<close> 7 the list is
  empty and the map has the key 7.
\<close>

theorem extractOperations_superset:
  "(fst (parseOperations spec) = Inr ops \<longrightarrow>
      (\<exists>m. extractOperations spec = Inr m \<and> JStr ` operationId ` set ops \<subseteq> fst ` set m)) \<and>
   fst (parseOperations
          (JObj [(''paths'', JObj [(''/pets'', JObj [(''get'', JObj [(''operationId'', JNum 7)])])])]))
     = Inr [] \<and>
   extractOperations
          (JObj [(''paths'', JObj [(''/pets'', JObj [(''get'', JObj [(''operationId'', JNum 7)])])])])
     = Inr [(JNum 7, \<lparr>info_operationId = JNum 7, info_method = ''get'', info_path = ''/pets'',
                      info_hasRequestBody = False, info_summary = JStr []\<rparr>)]"
proof (intro conjI impI)
  assume "fst (parseOperations spec) = Inr ops"
  then show "\<exists>m. extractOperations spec = Inr m \<and> JStr ` operationId ` set ops \<subseteq> fst ` set m"
    by (rule extractOperations_covers)
next
  show "fst (parseOperations
          (JObj [(''paths'', JObj [(''/pets'', JObj [(''get'', JObj [(''operationId'', JNum 7)])])])]))
     = Inr []"
    by code_simp
next
  show "extractOperations
          (JObj [(''paths'', JObj [(''/pets'', JObj [(''get'', JObj [(''operationId'', JNum 7)])])])])
     = Inr [(JNum 7, \<lparr>info_operationId = JNum 7, info_method = ''get'', info_path = ''/pets'',
                      info_hasRequestBody = False, info_summary = JStr []\<rparr>)]"
    by code_simp
qed

theorem extractOperations_superset_witness:
  "\<exists>m. extractOperations
      (JObj [(''paths'', JObj [(''/pets'', JObj
         [(''get'', JObj [(''operationId'', JStr ''listPets'')]),
          (''post'', JObj [(''operationId'', JNum 7)])])])]) = Inr m \<and>
     JStr ''listPets'' \<in> fst ` set m"
proof -
  have "fst (parseOperations
      (JObj [(''paths'', JObj [(''/pets'', JObj
         [(''get'', JObj [(''operationId'', JStr ''listPets'')]),
          (''post'', JObj [(''operationId'', JNum 7)])])])]))
    = Inr [\<lparr>operationId = ''listPets'', method = ''get'', path = ''/pets'',
            pathParams = [], hasRequestBody = False, hasQueryParams = False,
            summary = JStr [], description = JStr []\<rparr>]"
    by code_simp
  with extractOperations_superset
    [of "JObj [(''paths'', JObj [(''/pets'', JObj
         [(''get'', JObj [(''operationId'', JStr ''listPets'')]),
          (''post'', JObj [(''operationId'', JNum 7)])])])]"
        "[\<lparr>operationId = ''listPets'', method = ''get'', path = ''/pets'',
            pathParams = [], hasRequestBody = False, hasQueryParams = False,
            summary = JStr [], description = JStr []\<rparr>]"]
  show ?thesis by simp
qed

text \<open>
  The maps that \<^verbatim>\<open>extractOperations\<close> returns are keyed by \<^verbatim>\<open>operationId\<close>, and no
  primitive key occurs twice.
\<close>

lemma map_set_keyed:
  assumes "\<forall>(k', v') \<in> set m. info_operationId v' = k'" and "info_operationId v = k"
  shows "\<forall>(k', v') \<in> set (map_set k v m). info_operationId v' = k'"
  using assms
proof (induction m)
  case Nil
  then show ?case by simp
next
  case (Cons entry m)
  obtain k1 v1 where entry: "entry = (k1, v1)" by (cases entry)
  show ?case
  proof (cases "strict_eq k1 k")
    case True
    then have "k1 = k" by (rule strict_eq_imp_eq)
    with True entry Cons.prems show ?thesis by auto
  next
    case False
    with entry Cons show ?thesis by auto
  qed
qed

lemma map_set_distinct:
  assumes "distinct (filter primitive (map fst m))"
  shows "distinct (filter primitive (map fst (map_set k v m)))"
  using assms
proof (induction m)
  case Nil
  then show ?case by simp
next
  case (Cons entry m)
  obtain k1 v1 where entry: "entry = (k1, v1)" by (cases entry)
  show ?case
  proof (cases "strict_eq k1 k")
    case True
    with entry Cons.prems show ?thesis by simp
  next
    case False
    then have "primitive k1 \<Longrightarrow> k1 \<noteq> k" by (auto simp: strict_eq_primitive)
    with False entry Cons show ?thesis by (auto simp: map_set_keys) force
  qed
qed

lemma extract_method_invariant:
  assumes "map_invariant m" and "extract_method p pathItem name m = Inr m'"
  shows "map_invariant m'"
proof (cases "m' = m")
  case True
  with assms(1) show ?thesis by simp
next
  case False
  with assms(2) obtain opId v where m': "m' = map_set opId v m" and v: "info_operationId v = opId"
    by (auto simp: extract_method_def read_prop_def split: if_splits option.splits)
  from assms(1) have "distinct (filter primitive (map fst m))"
    and "\<forall>(k', v') \<in> set m. info_operationId v' = k'"
    by (auto simp: map_invariant_def)
  with m' v map_set_distinct [of m opId v] map_set_keyed [of m v opId] show ?thesis
    by (simp add: map_invariant_def)
qed

lemma extract_methods_invariant:
  "map_invariant m \<Longrightarrow> extract_methods p pathItem names m = Inr m' \<Longrightarrow> map_invariant m'"
  by (induction names arbitrary: m) (auto split: sum.splits dest: extract_method_invariant)

lemma extract_paths_invariant:
  "map_invariant m \<Longrightarrow> extract_paths entries m = Inr m' \<Longrightarrow> map_invariant m'"
  by (induction entries arbitrary: m)
     (auto split: sum.splits, blast dest: extract_methods_invariant)

lemma extractOperations_invariant:
  assumes "extractOperations spec = Inr m"
  shows "distinct (filter primitive (map fst m)) \<and> (\<forall>(k, v) \<in> set m. info_operationId v = k)"
proof -
  have "map_invariant []" by (simp add: map_invariant_def)
  with assms have "map_invariant m"
    by (auto simp: extractOperations_def split: if_splits option.splits
        dest: extract_paths_invariant)
  then show ?thesis by (simp add: map_invariant_def)
qed

section \<open>The generated error module\<close>

lemma to_string_total:
  "no_own_toString x \<Longrightarrow> \<exists>s. to_string num x = Inr s"
  "(\<forall>x \<in> set xs. no_own_toString x) \<Longrightarrow> \<exists>s. join_elements num xs = Inr s"
proof (induction num x and num xs rule: to_string_join_elements.induct)
  case (8 num x xs)
  then show ?case by (cases "x = JNull"; cases "xs = []") auto
qed auto

lemma typeof_string: "typeof_opt v = ''string'' \<longleftrightarrow> (\<exists>s. v = Some (JStr s))"
  by (cases v; cases "the v") (auto simp: typeof_opt_def)

lemma string_prop_string: "string_prop e name = Some v \<Longrightarrow> \<exists>s. v = JStr s"
  by (auto simp: string_prop_def typeof_string split: if_splits)

lemma error_step_string: "error_step e = Some v \<Longrightarrow> \<exists>s. v = JStr s"
  by (cases "get_prop e ''error''"; cases "the (get_prop e ''error'')")
     (auto simp: error_step_def dest: string_prop_string split: if_splits)

lemma no_own_toString_prop:
  "no_own_toString e \<Longrightarrow> get_prop e name = Some v \<Longrightarrow> no_own_toString v"
  by (cases e) (auto dest!: map_of_SomeD intro: rev_image_eqI)

lemma no_own_toString_first_value:
  "no_own_toString e \<Longrightarrow> first_value e = Some v \<Longrightarrow> no_own_toString v"
proof (cases e)
  case (JArr xs)
  assume "no_own_toString e" "first_value e = Some v"
  with JArr show ?thesis by (cases xs) (auto simp: first_value_def)
next
  case (JObj kvs)
  assume "no_own_toString e" "first_value e = Some v"
  with JObj show ?thesis by (cases kvs) (auto simp: first_value_def)
next
  case (JStr s)
  assume "first_value e = Some v"
  with JStr show ?thesis by (cases s) (auto simp: first_value_def)
qed (auto simp: first_value_def)

lemma errors_step_string:
  assumes "no_own_toString e"
  shows "\<exists>r. errors_step num e = Inr r \<and> (\<forall>v. r = Some v \<longrightarrow> (\<exists>s. v = JStr s))"
proof (cases "get_prop e ''errors''")
  case None
  then show ?thesis by (simp add: errors_step_def)
next
  case (Some errs)
  with assms have errs: "no_own_toString errs" by (auto dest: no_own_toString_prop)
  show ?thesis
  proof (cases "is_array (Some errs)")
    case True
    with Some show ?thesis
      by (auto simp: errors_step_def Let_def typeof_string)
  next
    case not_array: False
    show ?thesis
    proof (cases "first_value errs")
      case None
      with Some not_array show ?thesis by (auto simp: errors_step_def Let_def)
    next
      case field: (Some firstField)
      with errs have ff: "no_own_toString firstField" by (auto dest: no_own_toString_first_value)
      show ?thesis
      proof (cases firstField)
        case (JArr xs)
        show ?thesis
        proof (cases xs)
          case Nil
          with Some not_array field JArr show ?thesis by (auto simp: errors_step_def Let_def)
        next
          case (Cons x xs')
          with ff JArr have "no_own_toString x" by simp
          from to_string_total(1) [OF this, of num] obtain s where "to_string num x = Inr s" ..
          with Some not_array field JArr Cons show ?thesis
            by (auto simp: errors_step_def Let_def)
        qed
      qed (use Some not_array field in \<open>auto simp: errors_step_def Let_def\<close>)
    qed
  qed
qed

lemma detail_step_string:
  assumes "\<not> truthy_opt (detail_msg e) \<or> typeof_opt (detail_msg e) = ''string''"
  shows "detail_step e = Some v \<Longrightarrow> \<exists>s. v = JStr s"
  using assms
  by (auto simp: detail_step_def detail_msg_def typeof_string Let_def split: if_splits)

lemma normalizeErrorMessage_string:
  assumes "conventional e"
  shows "\<exists>s. normalizeErrorMessage num (Some e) = Inr (JStr s)"
proof -
  from assms have a: "no_own_toString e"
    and b: "\<not> truthy_opt (detail_msg e) \<or> typeof_opt (detail_msg e) = ''string''"
    by (auto simp: conventional_def)
  from errors_step_string [OF a, of num] obtain r
    where r: "errors_step num e = Inr r" "\<forall>v. r = Some v \<longrightarrow> (\<exists>s. v = JStr s)" by auto
  show ?thesis
    using r string_prop_string [of e "''message''"] string_prop_string [of e "''title''"]
      error_step_string [of e] detail_step_string [OF b]
    by (auto simp: normalizeErrorMessage_def split: option.splits)
qed

lemma createApiError_total:
  assumes "\<forall>body. response_body err = Some body \<longrightarrow> conventional body"
  shows "\<exists>a. createApiError num err = Inr a"
proof (cases err)
  case (Thrown_axios ax)
  show ?thesis
  proof (cases "error_response ax")
    case None
    with Thrown_axios show ?thesis by (simp add: createApiError_def Let_def)
  next
    case (Some response)
    with assms Thrown_axios have "conventional (response_data response)"
      by (simp add: response_body_def)
    from normalizeErrorMessage_string [OF this, of num] Some Thrown_axios show ?thesis
      by (auto simp: createApiError_def Let_def)
  qed
qed (simp_all add: createApiError_def)

text \<open>
  Where the module is total. \<^verbatim>\<open>normalizeErrorMessage\<close> returns the fallback text for
  every value that is falsy or not an object, and returns a string without raising for
  every decoded payload in which no object has an own \<^verbatim>\<open>toString\<close> property and
  \<^verbatim>\<open>detail[0].msg\<close> is a string whenever it is truthy. \<^verbatim>\<open>safeRequest\<close> resolves a
  fulfilled promise to \<^verbatim>\<open>{ data: response.data, error: null }\<close>, and resolves a rejected
  promise to \<^verbatim>\<open>{ data: null, error }\<close> with an error that is not \<^verbatim>\<open>null\<close>, for every
  thrown value whose response body, if it has one, is such a payload.
\<close>

lemma error_module_results:
  "((\<not> truthy_opt v \<or> typeof_opt v \<noteq> ''object'') \<longrightarrow>
      normalizeErrorMessage num v = Inr (JStr unexpected_error)) \<and>
   (conventional e \<longrightarrow> (\<exists>s. normalizeErrorMessage num (Some e) = Inr (JStr s))) \<and>
   safeRequest num (Fulfilled response) = Inr \<lparr>data = response_data response, error = None\<rparr> \<and>
   ((\<forall>body. response_body err = Some body \<longrightarrow> conventional body) \<longrightarrow>
      (\<exists>a. safeRequest num (Rejected err) = Inr \<lparr>data = JNull, error = Some a\<rparr>))"
proof (intro conjI impI)
  assume "\<not> truthy_opt v \<or> typeof_opt v \<noteq> ''object''"
  then show "normalizeErrorMessage num v = Inr (JStr unexpected_error)"
    by (cases v) (auto simp: normalizeErrorMessage_def truthy_opt_def typeof_opt_def)
next
  assume "conventional e"
  then show "\<exists>s. normalizeErrorMessage num (Some e) = Inr (JStr s)"
    by (rule normalizeErrorMessage_string)
next
  show "safeRequest num (Fulfilled response) = Inr \<lparr>data = response_data response, error = None\<rparr>"
    by (simp add: safeRequest_def)
next
  assume "\<forall>body. response_body err = Some body \<longrightarrow> conventional body"
  from createApiError_total [OF this, of num]
  show "\<exists>a. safeRequest num (Rejected err) = Inr \<lparr>data = JNull, error = Some a\<rparr>"
    by (auto simp: safeRequest_def)
qed

lemma error_module_results_example:
  "normalizeErrorMessage small_number_text (Some (JStr ''Bad Gateway'')) = Inr (JStr unexpected_error) \<and>
   (\<exists>s. normalizeErrorMessage small_number_text
         (Some (JObj [(''detail'', JArr [JObj [(''msg'', JStr ''field required'')]])])) = Inr (JStr s)) \<and>
   safeRequest small_number_text
       (Fulfilled \<lparr>response_data = JArr [], response_status = 200\<rparr>)
     = Inr \<lparr>data = JArr [], error = None\<rparr> \<and>
   (\<exists>a. safeRequest small_number_text
         (Rejected (Thrown_axios \<lparr>error_config = None, error_code = None,
            error_message = ''Request failed with status code 422'',
            error_response = Some \<lparr>response_data = JObj [(''errors'', JObj [(''name'', JArr [JNum 1])])],
                                     response_status = 422\<rparr>\<rparr>))
       = Inr \<lparr>data = JNull, error = Some a\<rparr>)"
  using error_module_results
    [of "Some (JStr ''Bad Gateway'')" small_number_text
        "JObj [(''detail'', JArr [JObj [(''msg'', JStr ''field required'')]])]"
        "\<lparr>response_data = JArr [], response_status = 200\<rparr>"
        "Thrown_axios \<lparr>error_config = None, error_code = None,
            error_message = ''Request failed with status code 422'',
            error_response = Some \<lparr>response_data = JObj [(''errors'', JObj [(''name'', JArr [JNum 1])])],
                                     response_status = 422\<rparr>\<rparr>"]
  by (simp add: conventional_def detail_msg_def response_body_def truthy_opt_def typeof_opt_def
      opt_prop_def)

text \<open>A fulfilled promise whose response has the body \<^verbatim>\<open>null\<close> gives a result with both fields \<^verbatim>\<open>null\<close>.\<close>

lemma safeRequest_null_data_null_error:
  "safeRequest small_number_text (Fulfilled \<lparr>response_data = JNull, response_status = 200\<rparr>)
   = Inr \<lparr>data = JNull, error = None\<rparr>"
  by (simp add: safeRequest_def)

text \<open>
  C9. The module is not total. For a payload whose \<^verbatim>\<open>detail[0].msg\<close> is the number 42,
  \<^verbatim>\<open>normalizeErrorMessage\<close> returns the number, not a string. For a payload whose
  \<^verbatim>\<open>errors\<close> object has, as the first entry of its first field, an object with an own
  property \<^verbatim>\<open>toString\<close>, the conversion \<^verbatim>\<open>String(firstField[0])\<close> raises a \<^verbatim>\<open>TypeError\<close>
  in \<^verbatim>\<open>normalizeErrorMessage\<close>; and \<^verbatim>\<open>safeRequest\<close>, on a promise rejected with an
  \<^verbatim>\<open>AxiosError\<close> whose response has that body, is rejected with the \<^verbatim>\<open>TypeError\<close>
  instead of resolving to a result.
\<close>

theorem error_module_not_total:
  "normalizeErrorMessage small_number_text
     (Some (JObj [(''detail'', JArr [JObj [(''msg'', JNum 42)]])])) = Inr (JNum 42) \<and>
   normalizeErrorMessage small_number_text
     (Some (JObj [(''errors'', JObj [(''name'', JArr [JObj [(''toString'', JNum 1)]])])]))
     = Inl TypeError \<and>
   safeRequest small_number_text
     (Rejected (Thrown_axios \<lparr>error_config = None, error_code = None,
        error_message = ''Request failed with status code 422'',
        error_response =
          Some \<lparr>response_data =
                   JObj [(''errors'', JObj [(''name'', JArr [JObj [(''toString'', JNum 1)]])])],
                 response_status = 422\<rparr>\<rparr>))
     = Inl TypeError"
  by code_simp

theorem error_module_not_total_witness:
  "isl (safeRequest small_number_text
     (Rejected (Thrown_axios \<lparr>error_config = None, error_code = None,
        error_message = ''Request failed with status code 422'',
        error_response =
          Some \<lparr>response_data =
                   JObj [(''errors'', JObj [(''name'', JArr [JObj [(''toString'', JNum 1)]])])],
                 response_status = 422\<rparr>\<rparr>))) \<and>
   normalizeErrorMessage small_number_text
     (Some (JObj [(''detail'', JArr [JObj [(''msg'', JNum 42)]])])) \<noteq> Inr (JStr ''42'')"
  using error_module_not_total by simp

end
